theory Spec2Isabelle
  imports Main "HOL-Library.Product_Lexorder" "HOL-Library.List_Lexorder" "HOL-Library.Char_ord"
    "HOL-Library.AList" "HOL-Library.Multiset"
begin

section \<open>Convex-hull STL generation (generate\_convex.py)\<close>

text \<open>
  The script reads triangle meshes, deduplicates their vertices with \<^verbatim>\<open>np.unique\<close>,
  asks SciPy for the convex hull and writes one triangle per hull facet. The embedding
  below follows the two functions of the script line by line. What the script takes from
  its libraries is written out as far as the script depends on it:
  \<^item> strings are byte lists, and the string functions of \<^verbatim>\<open>posixpath\<close> and
    \<^verbatim>\<open>pathlib\<close> (POSIX flavour) are functions on them;
  \<^item> the filesystem is a tree without symbolic links, stored as an association list
    from absolute component lists to nodes in the order \<^verbatim>\<open>os.listdir\<close> reports the
    entries; a path string is resolved against it from the root or the working directory,
    component by component, \<^verbatim>\<open>..\<close> going to the parent; a directory may be
    closed to listing, and nothing else is refused for lack of permission;
  \<^item> a mesh coordinate is a \<^verbatim>\<open>float32\<close>: either NaN or a number, the numbers taken
    from a linearly ordered type that identifies what \<^verbatim>\<open>==\<close> identifies;
  \<^item> \<^verbatim>\<open>scipy.spatial.ConvexHull\<close> is a parameter: a function from the point array
    to either the text of the exception it raises or the array \<^verbatim>\<open>simplices\<close>.
\<close>

subsection \<open>Strings\<close>

text \<open>\<^verbatim>\<open>s.split('/')\<close>\<close>

fun split_sep :: "string \<Rightarrow> string list" where
  "split_sep [] = [[]]"
| "split_sep (c # cs) =
     (if c = CHR ''/'' then [] # split_sep cs
      else (case split_sep cs of [] \<Rightarrow> [[c]] | x # xs \<Rightarrow> (c # x) # xs))"

text \<open>\<^verbatim>\<open>str.lower\<close> on ASCII letters; every other byte is kept.\<close>

definition char_lower :: "char \<Rightarrow> char" where
  "char_lower c =
     (case map_of (zip ''ABCDEFGHIJKLMNOPQRSTUVWXYZ'' ''abcdefghijklmnopqrstuvwxyz'') c of
        None \<Rightarrow> c
      | Some l \<Rightarrow> l)"

definition str_lower :: "string \<Rightarrow> string" where
  "str_lower s = map char_lower s"

text \<open>Decimal text of a natural number, as an f-string prints \<^verbatim>\<open>len(...)\<close>.\<close>

fun str_nat :: "nat \<Rightarrow> string" where
  "str_nat n =
     (if n < 10 then [''0123456789'' ! n]
      else str_nat (n div 10) @ [''0123456789'' ! (n mod 10)])"

declare str_nat.simps [simp del]

text \<open>
  \<^verbatim>\<open>os.path.dirname\<close>: the text up to and including the last separator, with trailing
  separators removed unless the head consists of separators only.
\<close>

definition is_sep :: "char \<Rightarrow> bool" where
  "is_sep c = (c = CHR ''/'')"

definition dirname :: "string \<Rightarrow> string" where
  "dirname p =
     (let head = rev (dropWhile (\<lambda>c. \<not> is_sep c) (rev p))
      in if head \<noteq> [] \<and> \<not> list_all is_sep head
         then rev (dropWhile is_sep (rev head)) else head)"

subsection \<open>Pure paths (pathlib, POSIX flavour)\<close>

record path =
  root :: string
  parts :: "string list"

text \<open>\<^verbatim>\<open>posixpath.splitroot\<close>: no root, one slash, or exactly two slashes.\<close>

definition splitroot :: "string \<Rightarrow> string \<times> string" where
  "splitroot p =
     (case p of
        [] \<Rightarrow> ([], p)
      | c1 # t1 \<Rightarrow>
          if \<not> is_sep c1 then ([], p)
          else (case t1 of
                  [] \<Rightarrow> (''/'', t1)
                | c2 # t2 \<Rightarrow>
                    if \<not> is_sep c2 then (''/'', t1)
                    else (case t2 of
                            [] \<Rightarrow> (''//'', t2)
                          | c3 # t3 \<Rightarrow> if is_sep c3 then (''/'', t1) else (''//'', t2))))"

definition keep_part :: "string \<Rightarrow> bool" where
  "keep_part x = (x \<noteq> [] \<and> x \<noteq> ''.'')"

text \<open>\<^verbatim>\<open>Path(s)\<close>: the root, and the components that are neither empty nor a dot.\<close>

definition Path :: "string \<Rightarrow> path" where
  "Path s = (case splitroot s of (r, rel) \<Rightarrow>
     \<lparr>root = r, parts = filter keep_part (split_sep rel)\<rparr>)"

text \<open>\<^verbatim>\<open>str(p)\<close>: root and components joined by the separator, a dot for the empty path.\<close>

fun join_sep :: "string list \<Rightarrow> string" where
  "join_sep [] = []"
| "join_sep [x] = x"
| "join_sep (x # y # ys) = x @ ''/'' @ join_sep (y # ys)"

definition Path_str :: "path \<Rightarrow> string" where
  "Path_str p = (let s = root p @ join_sep (parts p) in if s = [] then ''.'' else s)"

text \<open>
  \<^verbatim>\<open>p / s\<close>: a rooted right operand replaces the left one, any other is appended
  component by component.
\<close>

definition Path_truediv :: "path \<Rightarrow> string \<Rightarrow> path" where
  "Path_truediv p s =
     (let q = Path s in if root q \<noteq> [] then q else p\<lparr>parts := parts p @ parts q\<rparr>)"

definition Path_name :: "path \<Rightarrow> string" where
  "Path_name p = (if parts p = [] then [] else last (parts p))"

text \<open>
  \<^verbatim>\<open>p.suffix\<close> and \<^verbatim>\<open>p.stem\<close> cut the name at its last dot \<^verbatim>\<open>i = name.rfind('.')\<close>
  when \<^verbatim>\<open>0 < i < len(name) - 1\<close> (CPython up to 3.13). The text after the last dot is
  \<open>after_dot\<close>, so \<^verbatim>\<open>i\<close> is the length of the name less one more than its length.
\<close>

definition after_dot :: "string \<Rightarrow> string" where
  "after_dot nm = rev (takeWhile (\<lambda>c. c \<noteq> CHR ''.'') (rev nm))"

definition has_suffix :: "string \<Rightarrow> bool" where
  "has_suffix nm =
     (CHR ''.'' \<in> set nm \<and> after_dot nm \<noteq> [] \<and> Suc (length (after_dot nm)) < length nm)"

definition Path_suffix :: "path \<Rightarrow> string" where
  "Path_suffix p =
     (let nm = Path_name p
      in if has_suffix nm then drop (length nm - Suc (length (after_dot nm))) nm else [])"

definition Path_stem :: "path \<Rightarrow> string" where
  "Path_stem p =
     (let nm = Path_name p
      in if has_suffix nm then take (length nm - Suc (length (after_dot nm))) nm else nm)"

text \<open>
  Paths are ordered by their component lists, the root first when there is one; the
  lists are compared lexicographically and the strings in them byte by byte.
\<close>

definition cparts :: "path \<Rightarrow> string list" where
  "cparts p = (if root p = [] then parts p else root p # parts p)"

text \<open>
  What \<^verbatim>\<open>Path(s)\<close> and \<^verbatim>\<open>iterdir\<close> produce: one of the three roots, and components
  that are names.
\<close>

definition part_ok :: "string \<Rightarrow> bool" where
  "part_ok c = (c \<noteq> [] \<and> c \<noteq> ''.'' \<and> CHR ''/'' \<notin> set c)"

definition wf_path :: "path \<Rightarrow> bool" where
  "wf_path p = ((root p = [] \<or> root p = ''/'' \<or> root p = ''//'') \<and> list_all part_ok (parts p))"

subsection \<open>Coordinates\<close>

text \<open>
  A \<^verbatim>\<open>float32\<close> is NaN or a number. Sorting compares numbers by their order and puts
  NaN after every number, NaN beside NaN in either order; \<^verbatim>\<open>==\<close> holds between equal
  numbers and never where a NaN is involved.
\<close>

datatype 'a float32 = Num 'a | NaN

instantiation float32 :: (linorder) linorder
begin

definition less_eq_float32 :: "'a float32 \<Rightarrow> 'a float32 \<Rightarrow> bool" where
  "less_eq_float32 x y =
     (case y of NaN \<Rightarrow> True | Num b \<Rightarrow> (case x of NaN \<Rightarrow> False | Num a \<Rightarrow> a \<le> b))"

definition less_float32 :: "'a float32 \<Rightarrow> 'a float32 \<Rightarrow> bool" where
  "less_float32 x y =
     (case x of NaN \<Rightarrow> False | Num a \<Rightarrow> (case y of NaN \<Rightarrow> True | Num b \<Rightarrow> a < b))"

instance
  by standard (auto simp: less_eq_float32_def less_float32_def split: float32.splits)

end

definition ieee_eq :: "'a float32 \<Rightarrow> 'a float32 \<Rightarrow> bool" where
  "ieee_eq x y = (case x of NaN \<Rightarrow> False | Num a \<Rightarrow> (case y of NaN \<Rightarrow> False | Num b \<Rightarrow> a = b))"

subsection \<open>Meshes and the filesystem\<close>

type_synonym 'a point = "'a \<times> 'a \<times> 'a"
type_synonym 'a triangle = "'a point \<times> 'a point \<times> 'a point"

datatype error =
  FileNotFoundError | FileExistsError | NotADirectoryError | IsADirectoryError
  | PermissionError | IndexError | MeshReadError

text \<open>
  A directory carries whether it may be listed. A file either decodes as a mesh (the
  triangles \<^verbatim>\<open>Mesh.from_file\<close> returns, which are the ones \<^verbatim>\<open>save\<close> wrote) or it
  does not.
\<close>

datatype 'a node = Dir bool | StlFile "'a triangle list" | OtherFile

text \<open>A node is addressed by its components from the root.\<close>

type_synonym fkey = "string list"

record 'a world =
  cwd :: fkey
  fs :: "(fkey \<times> 'a node) list"
  stdout :: "string list"

definition print :: "'a world \<Rightarrow> string \<Rightarrow> 'a world" where
  "print w s = w\<lparr>stdout := stdout w @ [s]\<rparr>"

definition node_at :: "'a world \<Rightarrow> fkey \<Rightarrow> 'a node option" where
  "node_at w k = map_of (fs w) k"

definition is_dir_node :: "'a node option \<Rightarrow> bool" where
  "is_dir_node n = (case n of Some (Dir b) \<Rightarrow> True | _ \<Rightarrow> False)"

definition is_file_node :: "'a node option \<Rightarrow> bool" where
  "is_file_node n = (case n of Some (StlFile m) \<Rightarrow> True | Some OtherFile \<Rightarrow> True | _ \<Rightarrow> False)"

text \<open>
  Path resolution. The components of a path string are the pieces between separators
  that are neither empty nor a dot. Resolution starts at the root for a string that
  begins with a separator and at the working directory otherwise. It passes through
  directories only; \<^verbatim>\<open>..\<close> goes to the parent (the root is its own parent). The last
  component may name a file or nothing. A missing component before the last is
  \<open>FileNotFoundError\<close>, a file before the last is \<open>NotADirectoryError\<close>.
\<close>

definition os_parts :: "string \<Rightarrow> string list" where
  "os_parts s = filter keep_part (split_sep s)"

definition walk_start :: "'a world \<Rightarrow> string \<Rightarrow> fkey" where
  "walk_start w s = (if is_sep (hd s) then [] else cwd w)"

fun walk :: "'a world \<Rightarrow> fkey \<Rightarrow> string list \<Rightarrow> error + fkey" where
  "walk w cur [] = Inr cur"
| "walk w cur (c # cs) =
     (if c = ''..'' then walk w (butlast cur) cs
      else (case node_at w (cur @ [c]) of
              None \<Rightarrow> if cs = [] then Inr (cur @ [c]) else Inl FileNotFoundError
            | Some (Dir b) \<Rightarrow> walk w (cur @ [c]) cs
            | Some (StlFile m) \<Rightarrow> if cs = [] then Inr (cur @ [c]) else Inl NotADirectoryError
            | Some OtherFile \<Rightarrow> if cs = [] then Inr (cur @ [c]) else Inl NotADirectoryError))"

text \<open>
  A string that ends in a separator or in a dot component names a directory: on a file
  it is \<open>NotADirectoryError\<close>. The empty string names nothing.
\<close>

definition must_be_dir :: "string \<Rightarrow> bool" where
  "must_be_dir s = (last (split_sep s) = [] \<or> last (split_sep s) = ''.'')"

definition os_lookup :: "'a world \<Rightarrow> string \<Rightarrow> error + fkey" where
  "os_lookup w s =
     (if s = [] then Inl FileNotFoundError
      else (case walk w (walk_start w s) (os_parts s) of
              Inl e \<Rightarrow> Inl e
            | Inr k \<Rightarrow>
                if must_be_dir s \<and> is_file_node (node_at w k) then Inl NotADirectoryError
                else Inr k))"

definition os_path_isfile :: "'a world \<Rightarrow> string \<Rightarrow> bool" where
  "os_path_isfile w s =
     (case os_lookup w s of Inl e \<Rightarrow> False | Inr k \<Rightarrow> is_file_node (node_at w k))"

definition os_path_isdir :: "'a world \<Rightarrow> string \<Rightarrow> bool" where
  "os_path_isdir w s =
     (case os_lookup w s of Inl e \<Rightarrow> False | Inr k \<Rightarrow> is_dir_node (node_at w k))"

definition os_path_exists :: "'a world \<Rightarrow> string \<Rightarrow> bool" where
  "os_path_exists w s =
     (case os_lookup w s of Inl e \<Rightarrow> False | Inr k \<Rightarrow> node_at w k \<noteq> None)"

text \<open>
  Creating a directory and its missing ancestors along the components of the name,
  top down, as the recursion of \<^verbatim>\<open>os.makedirs\<close> and of \<^verbatim>\<open>Path.mkdir\<close> with
  \<^verbatim>\<open>parents\<close> does. A file in the way of an ancestor is \<open>NotADirectoryError\<close>, a file
  in the way of the directory itself is \<open>FileExistsError\<close>.
\<close>

fun mkdirs_walk :: "fkey \<Rightarrow> string list \<Rightarrow> 'a world \<Rightarrow> error + 'a world" where
  "mkdirs_walk cur [] w = Inr w"
| "mkdirs_walk cur (c # cs) w =
     (if c = ''..'' then mkdirs_walk (butlast cur) cs w
      else (case node_at w (cur @ [c]) of
              None \<Rightarrow>
                mkdirs_walk (cur @ [c]) cs
                  (w\<lparr>fs := AList.update (cur @ [c]) (Dir True) (fs w)\<rparr>)
            | Some (Dir b) \<Rightarrow> mkdirs_walk (cur @ [c]) cs w
            | Some (StlFile m) \<Rightarrow> Inl (if cs = [] then FileExistsError else NotADirectoryError)
            | Some OtherFile \<Rightarrow> Inl (if cs = [] then FileExistsError else NotADirectoryError)))"

text \<open>
  \<^verbatim>\<open>os.makedirs(name, exist_ok=True)\<close>. The empty name is refused by \<^verbatim>\<open>mkdir\<close> with
  \<open>FileNotFoundError\<close>, and since it is no directory either, \<^verbatim>\<open>exist_ok\<close> does not
  absorb the error. An existing directory is left as it is.
\<close>

definition os_makedirs :: "string \<Rightarrow> 'a world \<Rightarrow> error + 'a world" where
  "os_makedirs nm w =
     (if nm = [] then Inl FileNotFoundError
      else if os_path_isdir w nm then Inr w
      else mkdirs_walk (walk_start w nm) (os_parts nm) w)"

text \<open>\<^verbatim>\<open>p.mkdir(parents=True, exist_ok=True)\<close> hands \<^verbatim>\<open>str(p)\<close> to the same system calls.\<close>

definition Path_mkdir :: "path \<Rightarrow> 'a world \<Rightarrow> error + 'a world" where
  "Path_mkdir p w = os_makedirs (Path_str p) w"

text \<open>\<^verbatim>\<open>os.listdir\<close>: the names of the entries of a listable directory, in stored order.\<close>

definition entry_names :: "fkey \<Rightarrow> (fkey \<times> 'a node) list \<Rightarrow> string list" where
  "entry_names k al =
     map (\<lambda>e. last (fst e)) (filter (\<lambda>e. fst e \<noteq> [] \<and> butlast (fst e) = k) al)"

definition os_listdir :: "'a world \<Rightarrow> string \<Rightarrow> error + string list" where
  "os_listdir w s =
     (case os_lookup w s of
        Inl e \<Rightarrow> Inl e
      | Inr k \<Rightarrow>
          (case node_at w k of
             None \<Rightarrow> Inl FileNotFoundError
           | Some (Dir b) \<Rightarrow> if b then Inr (entry_names k (fs w)) else Inl PermissionError
           | Some (StlFile m) \<Rightarrow> Inl NotADirectoryError
           | Some OtherFile \<Rightarrow> Inl NotADirectoryError))"

text \<open>\<^verbatim>\<open>p.iterdir()\<close>: one child path per listed name.\<close>

definition Path_iterdir :: "'a world \<Rightarrow> path \<Rightarrow> error + path list" where
  "Path_iterdir w p =
     (case os_listdir w (Path_str p) of
        Inl e \<Rightarrow> Inl e
      | Inr names \<Rightarrow> Inr (map (\<lambda>n. p\<lparr>parts := parts p @ [n]\<rparr>) names))"

text \<open>\<^verbatim>\<open>mesh.Mesh.from_file\<close>: the triangles of a mesh file.\<close>

definition Mesh_from_file :: "'a world \<Rightarrow> string \<Rightarrow> error + 'a triangle list" where
  "Mesh_from_file w s =
     (case os_lookup w s of
        Inl e \<Rightarrow> Inl e
      | Inr k \<Rightarrow>
          (case node_at w k of
             None \<Rightarrow> Inl FileNotFoundError
           | Some (Dir b) \<Rightarrow> Inl IsADirectoryError
           | Some (StlFile m) \<Rightarrow> Inr m
           | Some OtherFile \<Rightarrow> Inl MeshReadError))"

text \<open>
  \<^verbatim>\<open>Mesh.save\<close> opens the file for writing: the path up to the last component must
  resolve, and the target must not be a directory nor be written as one; an existing
  file is replaced.
\<close>

definition Mesh_save :: "'a world \<Rightarrow> string \<Rightarrow> 'a triangle list \<Rightarrow> error + 'a world" where
  "Mesh_save w s m =
     (case os_lookup w s of
        Inl e \<Rightarrow> Inl e
      | Inr k \<Rightarrow>
          if must_be_dir s \<or> is_dir_node (node_at w k) then Inl IsADirectoryError
          else Inr (w\<lparr>fs := AList.update k (StlFile m) (fs w)\<rparr>))"

text \<open>
  A filesystem is a tree: the root and the working directory are directories, and every
  other node has a name (not empty, no separator, neither dot nor dot-dot) and lies in a
  directory.
\<close>

definition name_ok :: "string \<Rightarrow> bool" where
  "name_ok c = (part_ok c \<and> c \<noteq> ''..'')"

definition node_ok :: "'a world \<Rightarrow> fkey \<Rightarrow> bool" where
  "node_ok w k = (k = [] \<or> (name_ok (last k) \<and> is_dir_node (node_at w (butlast k))))"

definition wf_world :: "'a world \<Rightarrow> bool" where
  "wf_world w =
     (is_dir_node (node_at w []) \<and> is_dir_node (node_at w (cwd w))
      \<and> list_all (node_ok w) (map fst (fs w)))"

subsection \<open>Arrays\<close>

text \<open>\<^verbatim>\<open>vectors.reshape(-1, 3)\<close>: the three corners of every triangle, in order.\<close>

definition tri_points :: "'a triangle \<Rightarrow> 'a point list" where
  "tri_points t = (case t of (a, b, c) \<Rightarrow> [a, b, c])"

definition reshape_points :: "'a triangle list \<Rightarrow> 'a point list" where
  "reshape_points vectors = concat (map tri_points vectors)"

text \<open>
  \<^verbatim>\<open>np.unique(., axis=0)\<close>: the rows are sorted lexicographically, and after the first
  row a row is kept when it is \<^verbatim>\<open>!=\<close> the row before it, that is unless the three
  coordinates are pairwise \<^verbatim>\<open>==\<close>. A row with a NaN is \<^verbatim>\<open>!=\<close> every row, itself
  included.
\<close>

definition row_eq :: "'a float32 point \<Rightarrow> 'a float32 point \<Rightarrow> bool" where
  "row_eq r s =
     (case r of (a, b, c) \<Rightarrow> (case s of (a', b', c') \<Rightarrow>
        ieee_eq a a' \<and> ieee_eq b b' \<and> ieee_eq c c'))"

primrec keep_changes :: "'a float32 point \<Rightarrow> 'a float32 point list \<Rightarrow> 'a float32 point list" where
  "keep_changes prev [] = []"
| "keep_changes prev (r # rs) = (if row_eq prev r then [] else [r]) @ keep_changes r rs"

definition np_unique :: "('a::linorder) float32 point list \<Rightarrow> 'a float32 point list" where
  "np_unique rows = (case sort rows of [] \<Rightarrow> [] | r # rs \<Rightarrow> r # keep_changes r rs)"

text \<open>For stating where no NaN is involved.\<close>

definition has_nan :: "'a float32 point \<Rightarrow> bool" where
  "has_nan r = (case r of (a, b, c) \<Rightarrow> a = NaN \<or> b = NaN \<or> c = NaN)"

definition nan_free :: "'a float32 triangle list \<Rightarrow> bool" where
  "nan_free vectors = (filter has_nan (reshape_points vectors) = [])"

text \<open>
  Indexing an array with an integer: a negative index counts from the end, an index out
  of range raises \<open>IndexError\<close>.
\<close>

definition np_take :: "'b list \<Rightarrow> int \<Rightarrow> error + 'b" where
  "np_take xs i =
     (if 0 \<le> i \<and> i < int (length xs) then Inr (xs ! nat i)
      else if i < 0 \<and> - int (length xs) \<le> i then Inr (xs ! nat (int (length xs) + i))
      else Inl IndexError)"

text \<open>\<^verbatim>\<open>vertices[simplex]\<close> for one facet of three indices.\<close>

definition take_simplex :: "'b list \<Rightarrow> int \<times> int \<times> int \<Rightarrow> error + ('b \<times> 'b \<times> 'b)" where
  "take_simplex xs s =
     (case s of (i, j, k) \<Rightarrow>
        (case np_take xs i of Inl e \<Rightarrow> Inl e | Inr a \<Rightarrow>
        (case np_take xs j of Inl e \<Rightarrow> Inl e | Inr b \<Rightarrow>
        (case np_take xs k of Inl e \<Rightarrow> Inl e | Inr c \<Rightarrow> Inr (a, b, c)))))"

text \<open>The loop of lines 46 and 47 over the facets.\<close>

fun fill_vectors :: "'b list \<Rightarrow> (int \<times> int \<times> int) list \<Rightarrow> error + ('b \<times> 'b \<times> 'b) list" where
  "fill_vectors vertices [] = Inr []"
| "fill_vectors vertices (simplex # rest) =
     (case take_simplex vertices simplex of
        Inl e \<Rightarrow> Inl e
      | Inr t \<Rightarrow> (case fill_vectors vertices rest of Inl e \<Rightarrow> Inl e | Inr ts \<Rightarrow> Inr (t # ts)))"

subsection \<open>The script\<close>

type_synonym 'a hull = "'a point list \<Rightarrow> string + (int \<times> int \<times> int) list"

text \<open>The lines the script prints.\<close>

definition msg_not_found :: "string \<Rightarrow> string" where
  "msg_not_found p = ''[WARN] File not found, skip: '' @ p"

definition msg_loaded :: "string \<Rightarrow> nat \<Rightarrow> string" where
  "msg_loaded p n = ''[INFO] Loaded '' @ p @ '' with '' @ str_nat n @ '' triangles.''"

definition msg_not_enough :: "string \<Rightarrow> string" where
  "msg_not_enough p = ''[WARN] Not enough vertices to form a 3D convex hull: '' @ p"

definition msg_hull_failed :: "string \<Rightarrow> string \<Rightarrow> string" where
  "msg_hull_failed p e = ''[ERROR] Failed to compute convex hull for '' @ p @ '': '' @ e"

definition msg_saved :: "string \<Rightarrow> string" where
  "msg_saved p = ''[INFO] Convex hull saved to '' @ p"

definition msg_no_stl :: "string \<Rightarrow> string" where
  "msg_no_stl d = ''[WARN] No STL files found in '' @ d"

definition msg_found :: "nat \<Rightarrow> string \<Rightarrow> string" where
  "msg_found n d = ''[INFO] Found '' @ str_nat n @ '' STL files in '' @ d"

definition generate_convex_stl ::
  "('a::linorder) float32 hull \<Rightarrow> 'a float32 world \<Rightarrow> string \<Rightarrow> string
     \<Rightarrow> error + 'a float32 world" where
  "generate_convex_stl ConvexHull w input_stl_path output_stl_path =
     (if \<not> os_path_isfile w input_stl_path
      then Inr (print w (msg_not_found input_stl_path))
      else (case Mesh_from_file w input_stl_path of
        Inl e \<Rightarrow> Inl e
      | Inr vectors \<Rightarrow>
          let w1 = print w (msg_loaded input_stl_path (length vectors));
              vertices = np_unique (reshape_points vectors)
          in if length vertices < 4
             then Inr (print w1 (msg_not_enough input_stl_path))
             else (case ConvexHull vertices of
               Inl e \<Rightarrow> Inr (print w1 (msg_hull_failed input_stl_path e))
             | Inr convex_triangles \<Rightarrow>
                 (case fill_vectors vertices convex_triangles of
                    Inl e \<Rightarrow> Inl e
                  | Inr convex_mesh \<Rightarrow>
                      (case os_makedirs (dirname output_stl_path) w1 of
                         Inl e \<Rightarrow> Inl e
                       | Inr w2 \<Rightarrow>
                           (case Mesh_save w2 output_stl_path convex_mesh of
                              Inl e \<Rightarrow> Inl e
                            | Inr w3 \<Rightarrow>
                                Inr (print w3 (msg_saved output_stl_path))))))))"

text \<open>
  Lines 33 to 51 as a function of the point cloud and of the world after the load line
  has been printed, for stating what the function takes from the mesh.
\<close>

definition from_point_cloud ::
  "('a::linorder) float32 hull \<Rightarrow> 'a float32 world \<Rightarrow> string \<Rightarrow> string
     \<Rightarrow> 'a float32 point list \<Rightarrow> error + 'a float32 world" where
  "from_point_cloud ConvexHull w1 input_stl_path output_stl_path vertices =
     (if length vertices < 4
      then Inr (print w1 (msg_not_enough input_stl_path))
      else (case ConvexHull vertices of
        Inl e \<Rightarrow> Inr (print w1 (msg_hull_failed input_stl_path e))
      | Inr convex_triangles \<Rightarrow>
          (case fill_vectors vertices convex_triangles of
             Inl e \<Rightarrow> Inl e
           | Inr convex_mesh \<Rightarrow>
               (case os_makedirs (dirname output_stl_path) w1 of
                  Inl e \<Rightarrow> Inl e
                | Inr w2 \<Rightarrow>
                    (case Mesh_save w2 output_stl_path convex_mesh of
                       Inl e \<Rightarrow> Inl e
                     | Inr w3 \<Rightarrow> Inr (print w3 (msg_saved output_stl_path)))))))"

text \<open>Lines 82 to 84: the output path of one input path.\<close>

definition out_name :: "path \<Rightarrow> string \<Rightarrow> string" where
  "out_name in_path sfx = Path_stem in_path @ sfx @ ''.stl''"

definition out_path :: "path \<Rightarrow> string \<Rightarrow> path \<Rightarrow> path" where
  "out_path output_dir sfx in_path = Path_truediv output_dir (out_name in_path sfx)"

text \<open>The loop of lines 81 to 85; an exception of one file ends the loop.\<close>

fun process_files ::
  "('a::linorder) float32 hull \<Rightarrow> path \<Rightarrow> string \<Rightarrow> path list \<Rightarrow> 'a float32 world
     \<Rightarrow> error + 'a float32 world" where
  "process_files ConvexHull output_dir sfx [] w = Inr w"
| "process_files ConvexHull output_dir sfx (in_path # rest) w =
     (case generate_convex_stl ConvexHull w (Path_str in_path)
             (Path_str (out_path output_dir sfx in_path)) of
        Inl e \<Rightarrow> Inl e
      | Inr w' \<Rightarrow> process_files ConvexHull output_dir sfx rest w')"

text \<open>Line 74: the entries with the extension, sorted.\<close>

definition is_stl :: "path \<Rightarrow> bool" where
  "is_stl p = (str_lower (Path_suffix p) = ''.stl'')"

definition stl_files :: "path list \<Rightarrow> path list" where
  "stl_files entries = sort_key cparts (filter is_stl entries)"

text \<open>The default of the parameter \<^verbatim>\<open>suffix\<close> (line 57).\<close>

definition default_suffix :: string where
  "default_suffix = ''.stl.convex''"

definition batch_convex_hull_generation ::
  "('a::linorder) float32 hull \<Rightarrow> 'a float32 world \<Rightarrow> string \<Rightarrow> string option \<Rightarrow> string
     \<Rightarrow> error + 'a float32 world" where
  "batch_convex_hull_generation ConvexHull w input_directory output_directory sfx =
     (let input_dir = Path input_directory;
          output_dir = (case output_directory of None \<Rightarrow> input_dir | Some d \<Rightarrow> Path d)
      in case Path_mkdir output_dir w of
           Inl e \<Rightarrow> Inl e
         | Inr w1 \<Rightarrow>
             (case Path_iterdir w1 input_dir of
                Inl e \<Rightarrow> Inl e
              | Inr entries \<Rightarrow>
                  if stl_files entries = []
                  then Inr (print w1 (msg_no_stl (Path_str input_dir)))
                  else process_files ConvexHull output_dir sfx (stl_files entries)
                         (print w1 (msg_found (length (stl_files entries))
                            (Path_str input_dir)))))"

subsection \<open>Concrete inputs\<close>

text \<open>Points with integer coordinates.\<close>

definition pt :: "int \<Rightarrow> int \<Rightarrow> int \<Rightarrow> int float32 point" where
  "pt x y z = (Num x, Num y, Num z)"

text \<open>
  A tetrahedron, given once with four faces and once with the same corners in other
  triangles, one of them twice; three corners only; four corners in a plane.
\<close>

definition tetra_mesh :: "int float32 triangle list" where
  "tetra_mesh =
     [(pt 0 0 0, pt 1 0 0, pt 0 1 0),
      (pt 0 0 0, pt 1 0 0, pt 0 0 1),
      (pt 0 0 0, pt 0 1 0, pt 0 0 1),
      (pt 1 0 0, pt 0 1 0, pt 0 0 1)]"

definition tetra_shuffled :: "int float32 triangle list" where
  "tetra_shuffled =
     [(pt 0 0 1, pt 0 1 0, pt 1 0 0),
      (pt 0 1 0, pt 0 0 0, pt 1 0 0),
      (pt 0 0 1, pt 0 1 0, pt 1 0 0)]"

definition flat_mesh :: "int float32 triangle list" where
  "flat_mesh = [(pt 0 0 0, pt 1 0 0, pt 0 1 0), (pt 0 1 0, pt 1 0 0, pt 0 0 0)]"

definition square_mesh :: "int float32 triangle list" where
  "square_mesh = [(pt 0 0 0, pt 1 0 0, pt 0 1 0), (pt 1 1 0, pt 1 0 0, pt 0 1 0)]"

text \<open>
  Two stand-ins for the hull library: one answers with the four faces of a tetrahedron
  over four points, the other raises as Qhull does on a flat point set.
\<close>

definition hull_tetra :: "int float32 hull" where
  "hull_tetra pts = Inr [(0, 1, 2), (0, 1, 3), (0, 2, 3), (1, 2, 3)]"

definition hull_flat :: "int float32 hull" where
  "hull_flat pts = Inl ''QH6154 Qhull precision error: Initial simplex is flat''"

text \<open>The working directory \<^verbatim>\<open>/work\<close> with a directory \<^verbatim>\<open>in\<close> of four files.\<close>

definition demo_world :: "int float32 world" where
  "demo_world =
     \<lparr>cwd = [''work''],
      fs = [([], Dir True),
            ([''work''], Dir True),
            ([''work'', ''in''], Dir True),
            ([''work'', ''in'', ''tetra.stl''], StlFile tetra_mesh),
            ([''work'', ''in'', ''flat.stl''], StlFile flat_mesh),
            ([''work'', ''in'', ''square.STL''], StlFile square_mesh),
            ([''work'', ''in'', ''notes.txt''], OtherFile)],
      stdout = []\<rparr>"

text \<open>The four hull faces, and the demo world after the tetrahedron has been processed.\<close>

definition tetra_hull_mesh :: "int float32 triangle list" where
  "tetra_hull_mesh =
     [(pt 0 0 0, pt 0 0 1, pt 0 1 0),
      (pt 0 0 0, pt 0 0 1, pt 1 0 0),
      (pt 0 0 0, pt 0 1 0, pt 1 0 0),
      (pt 0 0 1, pt 0 1 0, pt 1 0 0)]"

definition demo_world_after :: "int float32 world" where
  "demo_world_after =
     \<lparr>cwd = [''work''],
      fs = fs demo_world @
            [([''work'', ''out''], Dir True),
             ([''work'', ''out'', ''tetra_convex.stl''], StlFile tetra_hull_mesh)],
      stdout = [''[INFO] Loaded in/tetra.stl with 4 triangles.'',
                ''[INFO] Convex hull saved to out/tetra_convex.stl'']\<rparr>"

text \<open>
  A mesh of one triangle with a NaN in one corner, the same triangle twice, and a world
  that holds a mesh as \<^verbatim>\<open>nan.stl\<close> in the working directory. On an array with a NaN
  the hull library raises before it computes anything.
\<close>

definition hull_nan :: "int float32 hull" where
  "hull_nan pts = Inl ''Points cannot contain NaN''"

definition nan_once :: "int float32 triangle list" where
  "nan_once = [(pt 0 0 0, pt 1 0 0, (NaN, Num 0, Num 0))]"

definition nan_twice :: "int float32 triangle list" where
  "nan_twice = [(pt 0 0 0, pt 1 0 0, (NaN, Num 0, Num 0)),
                (pt 0 0 0, pt 1 0 0, (NaN, Num 0, Num 0))]"

definition nan_world :: "int float32 triangle list \<Rightarrow> int float32 world" where
  "nan_world m =
     \<lparr>cwd = [''work''],
      fs = [([], Dir True), ([''work''], Dir True), ([''work'', ''nan.stl''], StlFile m)],
      stdout = []\<rparr>"

text \<open>
  A stand-in that does on the inputs above what Qhull does: the four faces for the
  corners of the tetrahedron, the precision error for a flat point set.
\<close>

definition hull_demo :: "int float32 hull" where
  "hull_demo pts =
     (if pts = [pt 0 0 0, pt 0 0 1, pt 0 1 0, pt 1 0 0]
      then Inr [(0, 1, 2), (0, 1, 3), (0, 2, 3), (1, 2, 3)]
      else Inl ''QH6154 Qhull precision error: Initial simplex is flat'')"

text \<open>
  The demo world once \<^verbatim>\<open>out\<close> has been created, what the listing of \<^verbatim>\<open>in\<close> gives
  there, and the world after the batch from \<^verbatim>\<open>in\<close> to \<^verbatim>\<open>out\<close> with the default
  suffix.
\<close>

definition demo_world_out :: "int float32 world" where
  "demo_world_out = demo_world\<lparr>fs := fs demo_world @ [([''work'', ''out''], Dir True)]\<rparr>"

definition demo_entries :: "path list" where
  "demo_entries =
     [\<lparr>root = [], parts = [''in'', ''tetra.stl'']\<rparr>,
      \<lparr>root = [], parts = [''in'', ''flat.stl'']\<rparr>,
      \<lparr>root = [], parts = [''in'', ''square.STL'']\<rparr>,
      \<lparr>root = [], parts = [''in'', ''notes.txt'']\<rparr>]"

definition demo_batch_after :: "int float32 world" where
  "demo_batch_after =
     \<lparr>cwd = [''work''],
      fs = fs demo_world @
            [([''work'', ''out''], Dir True),
             ([''work'', ''out'', ''tetra.stl.convex.stl''], StlFile tetra_hull_mesh)],
      stdout = [''[INFO] Found 3 STL files in in'',
                ''[INFO] Loaded in/flat.stl with 2 triangles.'',
                ''[WARN] Not enough vertices to form a 3D convex hull: in/flat.stl'',
                ''[INFO] Loaded in/square.STL with 2 triangles.'',
                ''[ERROR] Failed to compute convex hull for in/square.STL: QH6154 Qhull precision error: Initial simplex is flat'',
                ''[INFO] Loaded in/tetra.stl with 4 triangles.'',
                ''[INFO] Convex hull saved to out/tetra.stl.convex.stl'']\<rparr>"

text \<open>
  A directory \<^verbatim>\<open>in\<close> with one mesh of three triangles over the corners of the
  tetrahedron, and the same world after a batch that wrote the hull over it.
\<close>

definition part_world :: "int float32 world" where
  "part_world =
     \<lparr>cwd = [''work''],
      fs = [([], Dir True),
            ([''work''], Dir True),
            ([''work'', ''in''], Dir True),
            ([''work'', ''in'', ''part.stl''], StlFile tetra_shuffled)],
      stdout = []\<rparr>"

definition part_world_overwritten :: "int float32 world" where
  "part_world_overwritten =
     \<lparr>cwd = [''work''],
      fs = [([], Dir True),
            ([''work''], Dir True),
            ([''work'', ''in''], Dir True),
            ([''work'', ''in'', ''part.stl''], StlFile tetra_hull_mesh)],
      stdout = [''[INFO] Found 1 STL files in in'',
                ''[INFO] Loaded in/part.stl with 3 triangles.'',
                ''[INFO] Convex hull saved to in/part.stl'']\<rparr>"


text \<open>
  A working directory with a directory \<^verbatim>\<open>docs\<close> that holds one text file, and a
  directory \<^verbatim>\<open>vault\<close> that may not be listed.
\<close>

definition docs_world :: "int float32 world" where
  "docs_world =
     \<lparr>cwd = [''work''],
      fs = [([], Dir True),
            ([''work''], Dir True),
            ([''work'', ''docs''], Dir True),
            ([''work'', ''docs'', ''notes.txt''], OtherFile),
            ([''work'', ''vault''], Dir False)],
      stdout = []\<rparr>"

text \<open>The demo world after a batch on the missing directory \<^verbatim>\<open>missing\<close>.\<close>

definition demo_world_missing :: "int float32 world" where
  "demo_world_missing =
     \<lparr>cwd = [''work''],
      fs = fs demo_world @ [([''work'', ''missing''], Dir True)],
      stdout = [''[WARN] No STL files found in missing'']\<rparr>"








section \<open>Properties\<close>

subsection \<open>The point cloud\<close>

lemma Num_le_Num [simp]: "(Num a \<le> Num b) = (a \<le> b)"
  by (simp add: less_eq_float32_def)

lemma Num_less_Num [simp]: "(Num a < Num b) = (a < b)"
  by (simp add: less_float32_def)

lemma le_NaN [simp]: "x \<le> NaN"
  by (simp add: less_eq_float32_def)

lemma NaN_le [simp]: "(NaN \<le> x) = (x = NaN)"
  by (cases x) (simp_all add: less_eq_float32_def)

lemma less_NaN [simp]: "(x < NaN) = (x \<noteq> NaN)"
  by (cases x) (simp_all add: less_float32_def)

lemma NaN_less [simp]: "\<not> NaN < x"
  by (simp add: less_float32_def)

lemma ieee_eq_Num [simp]: "ieee_eq (Num a) (Num b) = (a = b)"
  by (simp add: ieee_eq_def)

lemma ieee_eq_NaN [simp]: "\<not> ieee_eq NaN x" "\<not> ieee_eq x NaN"
  by (simp_all add: ieee_eq_def split: float32.splits)

lemma row_eq_iff: "row_eq r s = (r = s \<and> \<not> has_nan r)"
proof -
  obtain a b c where r: "r = (a, b, c)" by (cases r)
  obtain a' b' c' where s: "s = (a', b', c')" by (cases s)
  have e: "ieee_eq x y = (x = y \<and> x \<noteq> NaN)" for x y :: "'a float32"
    by (cases x; cases y) simp_all
  show ?thesis
    unfolding r s by (auto simp: row_eq_def has_nan_def e)
qed

lemma set_keep_changes: "set (r # keep_changes r rs) = set (r # rs)"
  by (induction rs arbitrary: r) (auto simp: row_eq_iff)

lemma sorted_keep_changes: "sorted (r # rs) \<Longrightarrow> sorted (r # keep_changes r rs)"
proof (induction rs arbitrary: r)
  case Nil
  then show ?case by simp
next
  case (Cons s rs)
  from Cons.prems have srs: "sorted (s # rs)" and le: "r \<le> s"
    by simp_all
  from Cons.IH [OF srs] have ih: "sorted (s # keep_changes s rs)" .
  have sub: "set (keep_changes s rs) \<subseteq> set (s # rs)"
    using set_keep_changes [of s rs] by auto
  from Cons.prems have "\<forall>x \<in> set (s # rs). r \<le> x"
    by simp
  with sub ih show ?case
    by auto
qed

lemma keep_changes_finite:
  "filter has_nan (r # rs) = [] \<Longrightarrow> r # keep_changes r rs = remdups_adj (r # rs)"
proof (induction rs arbitrary: r)
  case Nil
  then show ?case by simp
next
  case (Cons s rs)
  from Cons.prems have r: "\<not> has_nan r" and srs: "filter has_nan (s # rs) = []"
    by (auto split: if_splits)
  from Cons.IH [OF srs] have ih: "s # keep_changes s rs = remdups_adj (s # rs)" .
  show ?case
  proof (cases "r = s")
    case True
    with r ih show ?thesis by (simp add: row_eq_iff)
  next
    case False
    with ih show ?thesis by (simp add: row_eq_iff)
  qed
qed

lemma sorted_np_unique: "sorted (np_unique rows)"
proof (cases "sort rows")
  case Nil
  then show ?thesis by (simp add: np_unique_def)
next
  case (Cons r rs)
  have "sorted (sort rows)" by simp
  then have "sorted (r # rs)" by (simp only: Cons)
  from sorted_keep_changes [OF this] show ?thesis
    by (simp add: np_unique_def Cons)
qed

lemma set_np_unique: "set (np_unique rows) = set rows"
proof (cases "sort rows")
  case Nil
  then have "rows = []" by (metis length_0_conv length_sort)
  then show ?thesis by (simp add: np_unique_def)
next
  case (Cons r rs)
  have "set (sort rows) = set rows" by simp
  then have "set (r # rs) = set rows" by (simp only: Cons)
  with set_keep_changes [of r rs] show ?thesis
    by (simp add: np_unique_def Cons)
qed

lemma np_unique_finite:
  assumes "filter has_nan rows = []"
  shows "np_unique rows = remdups_adj (sort rows)"
proof (cases "sort rows")
  case Nil
  then show ?thesis by (simp add: np_unique_def)
next
  case (Cons r rs)
  have "set (sort rows) = set rows" by simp
  with assms have "filter has_nan (sort rows) = []"
    by (simp add: filter_empty_conv)
  then have "filter has_nan (r # rs) = []" by (simp only: Cons)
  from keep_changes_finite [OF this] show ?thesis
    by (simp add: np_unique_def Cons)
qed

lemma distinct_remdups_adj_sorted:
  "sorted xs \<Longrightarrow> distinct (remdups_adj (xs :: ('a::linorder) list))"
  by (induction xs rule: remdups_adj.induct) auto

lemma distinct_np_unique: "filter has_nan rows = [] \<Longrightarrow> distinct (np_unique rows)"
  by (simp add: np_unique_finite distinct_remdups_adj_sorted)

lemma np_unique_cong_set:
  assumes "filter has_nan rows = []" and "set rows = set rows'"
  shows "np_unique rows = np_unique rows'"
proof -
  from assms have "filter has_nan rows' = []"
    by (simp add: filter_empty_conv)
  with assms show ?thesis
    by (intro sorted_distinct_set_unique)
      (simp_all add: sorted_np_unique distinct_np_unique set_np_unique)
qed

text \<open>The order of the rows is the lexicographic one on the three coordinates.\<close>

lemma point_le_lex:
  fixes a b c a' b' c' :: "'a::linorder"
  shows "((a, b, c) \<le> (a', b', c')) = (a < a' \<or> a = a' \<and> (b < b' \<or> b = b' \<and> c \<le> c'))"
  by auto

subsection \<open>Names and paths\<close>

lemma split_sep_no_sep: "CHR ''/'' \<notin> set s \<Longrightarrow> split_sep s = [s]"
  by (induction s) auto

lemma split_sep_nonempty [simp]: "split_sep s \<noteq> []"
  by (induction s) (auto split: list.splits)

lemma split_sep_pieces: "c \<in> set (split_sep s) \<Longrightarrow> CHR ''/'' \<notin> set c"
proof (induction s arbitrary: c)
  case Nil
  then show ?case by simp
next
  case (Cons x s)
  show ?case
  proof (cases "x = CHR ''/''")
    case True
    with Cons show ?thesis by auto
  next
    case False
    obtain y ys where ys: "split_sep s = y # ys"
      using split_sep_nonempty [of s] by (cases "split_sep s") auto
    from Cons.IH ys have "CHR ''/'' \<notin> set y" and "\<And>d. d \<in> set ys \<Longrightarrow> CHR ''/'' \<notin> set d"
      by simp_all
    with Cons.prems False ys show ?thesis by auto
  qed
qed

lemma split_sep_prepend:
  "CHR ''/'' \<notin> set x \<Longrightarrow> split_sep (x @ CHR ''/'' # s) = x # split_sep s"
  by (induction x) auto

lemma split_sep_join:
  "xs \<noteq> [] \<Longrightarrow> list_all (\<lambda>c. CHR ''/'' \<notin> set c) xs \<Longrightarrow> split_sep (join_sep xs) = xs"
proof (induction xs rule: join_sep.induct)
  case 1
  then show ?case by simp
next
  case (2 x)
  then show ?case by (simp add: split_sep_no_sep)
next
  case (3 x y ys)
  then show ?case by (simp add: split_sep_prepend)
qed

lemma splitroot_no_sep: "CHR ''/'' \<notin> set s \<Longrightarrow> splitroot s = ([], s)"
  by (cases s) (auto simp: splitroot_def is_sep_def)

lemma Path_single:
  assumes "part_ok s"
  shows "Path s = \<lparr>root = [], parts = [s]\<rparr>"
  using assms
  by (simp add: Path_def splitroot_no_sep split_sep_no_sep keep_part_def part_ok_def)

lemma Path_truediv_single:
  assumes "part_ok s"
  shows "Path_truediv p s = p\<lparr>parts := parts p @ [s]\<rparr>"
  by (simp add: Path_truediv_def Path_single [OF assms] Let_def)

lemma stem_suffix_name: "Path_stem p @ Path_suffix p = Path_name p"
  by (simp add: Path_stem_def Path_suffix_def Let_def)

lemma set_stem_subset: "set (Path_stem p) \<subseteq> set (Path_name p)"
  by (auto simp: Path_stem_def Let_def dest: in_set_takeD)

lemma is_stl_suffix_length: "is_stl p \<Longrightarrow> length (Path_suffix p) = 4"
proof -
  assume "is_stl p"
  then have "length (str_lower (Path_suffix p)) = length ''.stl''"
    by (simp add: is_stl_def)
  then show ?thesis by (simp add: str_lower_def)
qed

lemma is_stl_stem_nonempty: "is_stl p \<Longrightarrow> Path_stem p \<noteq> []"
proof -
  assume a: "is_stl p"
  then have "Path_suffix p \<noteq> []"
    by (auto simp: is_stl_def str_lower_def)
  then have "has_suffix (Path_name p)"
    by (auto simp: Path_suffix_def Let_def split: if_splits)
  then show ?thesis
    by (auto simp: Path_stem_def Let_def has_suffix_def)
qed

lemma out_name_ok:
  assumes "CHR ''/'' \<notin> set (Path_name in_path)" and "CHR ''/'' \<notin> set sfx"
  shows "part_ok (out_name in_path sfx)"
  using assms set_stem_subset [of in_path] by (auto simp: out_name_def part_ok_def)

lemma out_name_not_dotdot: "out_name in_path sfx \<noteq> ''..''"
proof
  assume "out_name in_path sfx = ''..''"
  then have "length (out_name in_path sfx) = 2" by simp
  then show False by (simp add: out_name_def)
qed

lemma out_path_single:
  assumes "CHR ''/'' \<notin> set (Path_name in_path)" and "CHR ''/'' \<notin> set sfx"
  shows "out_path output_dir sfx in_path
           = output_dir\<lparr>parts := parts output_dir @ [Path_stem in_path @ sfx @ ''.stl'']\<rparr>"
  unfolding out_path_def
  using Path_truediv_single [OF out_name_ok [OF assms]]
  by (simp add: out_name_def)

text \<open>Paths that \<^verbatim>\<open>Path\<close> and \<^verbatim>\<open>iterdir\<close> build, and their strings.\<close>

lemma wf_Path: "wf_path (Path s)"
proof -
  obtain r rel where sr: "splitroot s = (r, rel)" by (cases "splitroot s")
  then have r: "r = [] \<or> r = ''/'' \<or> r = ''//''"
    by (auto simp: splitroot_def split: list.splits if_splits)
  have "part_ok c" if "c \<in> set (filter keep_part (split_sep rel))" for c
    using that split_sep_pieces [of c rel] by (auto simp: part_ok_def keep_part_def)
  then have "list_all part_ok (filter keep_part (split_sep rel))"
    unfolding list_all_iff by blast
  with r show ?thesis
    by (simp add: wf_path_def Path_def sr)
qed

lemma wf_path_child: "wf_path p \<Longrightarrow> part_ok n \<Longrightarrow> wf_path (p\<lparr>parts := parts p @ [n]\<rparr>)"
  by (simp add: wf_path_def)

lemma Path_str_nonempty: "Path_str p \<noteq> []"
  by (simp add: Path_str_def Let_def)

lemma parts_no_sep:
  "wf_path p \<Longrightarrow> list_all (\<lambda>c. CHR ''/'' \<notin> set c) (parts p)"
  by (auto simp: wf_path_def part_ok_def list_all_iff)

lemma parts_kept: "wf_path p \<Longrightarrow> filter keep_part (parts p) = parts p"
  by (auto simp: wf_path_def part_ok_def keep_part_def list_all_iff filter_id_conv)

lemma split_sep_Path_str:
  assumes "wf_path p" and "parts p \<noteq> []"
  shows "split_sep (Path_str p)
           = (if root p = [] then [] else if root p = ''/'' then [[]] else [[], []]) @ parts p"
proof -
  from assms have ne: "root p @ join_sep (parts p) \<noteq> []"
    by (cases "parts p" rule: join_sep.cases) (auto simp: wf_path_def part_ok_def)
  from assms have j: "split_sep (join_sep (parts p)) = parts p"
    by (intro split_sep_join parts_no_sep)
  from assms(1) have "root p = [] \<or> root p = ''/'' \<or> root p = ''//''"
    by (simp add: wf_path_def)
  with ne j show ?thesis
    by (auto simp: Path_str_def Let_def)
qed

lemma os_parts_Path_str:
  assumes "wf_path p"
  shows "os_parts (Path_str p) = parts p"
proof (cases "parts p = []")
  case True
  from assms have "root p = [] \<or> root p = ''/'' \<or> root p = ''//''"
    by (simp add: wf_path_def)
  with True show ?thesis
    by (auto simp: os_parts_def Path_str_def Let_def keep_part_def)
next
  case False
  from split_sep_Path_str [OF assms False] parts_kept [OF assms] show ?thesis
    by (simp add: os_parts_def keep_part_def)
qed

lemma hd_Path_str:
  assumes "wf_path p"
  shows "is_sep (hd (Path_str p)) = (root p \<noteq> [])"
proof -
  from assms have r: "root p = [] \<or> root p = ''/'' \<or> root p = ''//''"
    by (simp add: wf_path_def)
  show ?thesis
  proof (cases "parts p")
    case Nil
    with r show ?thesis
      by (auto simp: Path_str_def Let_def is_sep_def)
  next
    case (Cons x xs)
    with assms have x: "x \<noteq> []" "CHR ''/'' \<notin> set x"
      by (simp_all add: wf_path_def part_ok_def)
    then have "hd x \<noteq> CHR ''/''"
      by (cases x) auto
    moreover have "hd (join_sep (x # xs)) = hd x"
      using x by (cases xs) simp_all
    moreover have "join_sep (x # xs) \<noteq> []"
      using x by (cases xs) simp_all
    ultimately show ?thesis using r Cons
      by (auto simp: Path_str_def Let_def is_sep_def)
  qed
qed

lemma not_must_be_dir_Path_str:
  assumes "wf_path p" and "parts p \<noteq> []"
  shows "\<not> must_be_dir (Path_str p)"
proof -
  from split_sep_Path_str [OF assms] assms(2)
  have "last (split_sep (Path_str p)) = last (parts p)"
    by simp
  moreover from assms have "part_ok (last (parts p))"
    by (simp add: wf_path_def list_all_iff)
  ultimately show ?thesis
    by (simp add: must_be_dir_def part_ok_def)
qed

text \<open>The string of a path with components resolves along its components.\<close>

lemma os_lookup_Path_str:
  assumes "wf_path p" and "parts p \<noteq> []"
  shows "os_lookup w (Path_str p) = walk w (if root p = [] then cwd w else []) (parts p)"
  using not_must_be_dir_Path_str [OF assms] hd_Path_str [OF assms(1)]
  by (simp add: os_lookup_def Path_str_nonempty os_parts_Path_str [OF assms(1)] walk_start_def
      split: sum.splits)

subsection \<open>Resolution and the filesystem\<close>

lemma node_at_stdout [simp]: "node_at (w\<lparr>stdout := s\<rparr>) k = node_at w k"
  by (simp add: node_at_def)

lemma node_at_print [simp]: "node_at (print w s) k = node_at w k"
  by (simp add: print_def)

lemma cwd_print [simp]: "cwd (print w s) = cwd w"
  by (simp add: print_def)

lemma fs_print [simp]: "fs (print w s) = fs w"
  by (simp add: print_def)

lemma node_at_update:
  "node_at (w\<lparr>fs := AList.update k n (fs w)\<rparr>) k' = (if k' = k then Some n else node_at w k')"
  by (simp add: node_at_def update_conv')

text \<open>Resolution looks at the nodes only.\<close>

lemma walk_cong:
  "(\<And>k. node_at w' k = node_at w k) \<Longrightarrow> walk w' cur cs = walk w cur cs"
  by (induction cs arbitrary: cur) (simp_all split: option.splits node.splits)

lemma os_lookup_cong:
  assumes "\<And>k. node_at w' k = node_at w k" and "cwd w' = cwd w"
  shows "os_lookup w' s = os_lookup w s"
  using assms by (simp add: os_lookup_def walk_start_def walk_cong [of w' w] split: sum.splits)

lemma os_lookup_stdout [simp]: "os_lookup (w\<lparr>stdout := s\<rparr>) p = os_lookup w p"
  by (rule os_lookup_cong) simp_all

lemma os_lookup_print [simp]: "os_lookup (print w s) p = os_lookup w p"
  by (simp add: print_def)

lemma Mesh_from_file_stdout [simp]:
  "Mesh_from_file (w\<lparr>stdout := s\<rparr>) p = Mesh_from_file w p"
  by (simp add: Mesh_from_file_def split: sum.splits)

lemma Mesh_from_file_print [simp]: "Mesh_from_file (print w s) p = Mesh_from_file w p"
  by (simp add: print_def)

lemma os_path_isfile_stdout [simp]:
  "os_path_isfile (w\<lparr>stdout := s\<rparr>) p = os_path_isfile w p"
  by (simp add: os_path_isfile_def split: sum.splits)

lemma os_path_isfile_from_file:
  "Mesh_from_file w s = Inr m \<Longrightarrow> os_path_isfile w s"
  by (auto simp: Mesh_from_file_def os_path_isfile_def is_file_node_def
      split: sum.splits option.splits node.splits)

text \<open>
  The last component of a resolved key is the last component of the path when that is
  a name.
\<close>

lemma walk_last:
  "walk w cur (cs @ [n]) = Inr k \<Longrightarrow> n \<noteq> ''..'' \<Longrightarrow> k \<noteq> [] \<and> last k = n"
proof (induction cs arbitrary: cur)
  case Nil
  then show ?case
    by (auto split: option.splits node.splits)
next
  case (Cons c cs)
  show ?case
  proof (cases "c = ''..''")
    case True
    with Cons.prems have "walk w (butlast cur) (cs @ [n]) = Inr k" by simp
    from Cons.IH [OF this Cons.prems(2)] show ?thesis .
  next
    case False
    with Cons.prems have "walk w (cur @ [c]) (cs @ [n]) = Inr k"
      by (auto split: option.splits node.splits)
    from Cons.IH [OF this Cons.prems(2)] show ?thesis .
  qed
qed

text \<open>Resolution is kept when directories stay directories.\<close>

lemma walk_mono:
  assumes "\<And>k. is_dir_node (node_at w k) \<Longrightarrow> is_dir_node (node_at w' k)"
  shows "walk w cur cs = Inr k \<Longrightarrow> walk w' cur cs = Inr k"
proof (induction cs arbitrary: cur)
  case Nil
  then show ?case by simp
next
  case (Cons c cs)
  show ?case
  proof (cases "c = ''..''")
    case True
    with Cons show ?thesis by simp
  next
    case False
    show ?thesis
    proof (cases "is_dir_node (node_at w (cur @ [c]))")
      case True
      with assms have d': "is_dir_node (node_at w' (cur @ [c]))" by blast
      from True False Cons.prems have "walk w (cur @ [c]) cs = Inr k"
        by (auto simp: is_dir_node_def split: option.splits node.splits)
      from Cons.IH [OF this] d' False show ?thesis
        by (auto simp: is_dir_node_def split: option.splits node.splits)
    next
      case nd: False
      with False Cons.prems have cs: "cs = []" and k: "k = cur @ [c]"
        by (auto simp: is_dir_node_def split: option.splits node.splits if_splits)
      with False show ?thesis
        by (auto split: option.splits node.splits)
    qed
  qed
qed

lemma os_lookup_mono:
  assumes "os_lookup w s = Inr k"
      and "\<And>k. is_dir_node (node_at w k) \<Longrightarrow> is_dir_node (node_at w' k)"
      and "cwd w' = cwd w"
      and "must_be_dir s \<Longrightarrow> \<not> is_file_node (node_at w' k)"
  shows "os_lookup w' s = Inr k"
proof -
  from assms(1) have ne: "s \<noteq> []" and wk: "walk w (walk_start w s) (os_parts s) = Inr k"
    by (auto simp: os_lookup_def split: if_splits sum.splits)
  from walk_mono [of w w', OF assms(2) wk] have "walk w' (walk_start w s) (os_parts s) = Inr k" .
  with ne assms(3,4) show ?thesis
    by (auto simp: os_lookup_def walk_start_def)
qed

text \<open>Below a directory, resolution goes on from its key.\<close>

lemma walk_append_dir:
  "walk w cur cs = Inr kd \<Longrightarrow> is_dir_node (node_at w kd) \<Longrightarrow>
     walk w cur (cs @ ds) = walk w kd ds"
proof (induction cs arbitrary: cur)
  case Nil
  then show ?case by simp
next
  case (Cons c cs)
  show ?case
  proof (cases "c = ''..''")
    case True
    with Cons show ?thesis by simp
  next
    case False
    show ?thesis
    proof (cases "is_dir_node (node_at w (cur @ [c]))")
      case True
      with False Cons.prems have "walk w (cur @ [c]) cs = Inr kd"
        by (auto simp: is_dir_node_def split: option.splits node.splits)
      from Cons.IH [OF this Cons.prems(2)] True False show ?thesis
        by (auto simp: is_dir_node_def split: option.splits node.splits)
    next
      case nd: False
      with False Cons.prems(1) have "kd = cur @ [c]"
        by (auto simp: is_dir_node_def split: option.splits node.splits if_splits)
      with nd Cons.prems(2) show ?thesis by simp
    qed
  qed
qed

text \<open>
  Creating directories changes no node that exists, and every new node is a listable
  directory.
\<close>

lemma mkdirs_walk_frame:
  "mkdirs_walk cur cs w = Inr w' \<Longrightarrow>
     cwd w' = cwd w \<and> stdout w' = stdout w \<and>
     (node_at w' k = node_at w k \<or> (node_at w k = None \<and> node_at w' k = Some (Dir True)))"
proof (induction cs arbitrary: cur w)
  case Nil
  then show ?case by simp
next
  case (Cons c cs)
  show ?case
  proof (cases "c = ''..''")
    case True
    with Cons.prems have "mkdirs_walk (butlast cur) cs w = Inr w'" by simp
    from Cons.IH [OF this] show ?thesis .
  next
    case False
    show ?thesis
    proof (cases "node_at w (cur @ [c])")
      case None
      let ?w2 = "w\<lparr>fs := AList.update (cur @ [c]) (Dir True) (fs w)\<rparr>"
      from Cons.prems None False have run: "mkdirs_walk (cur @ [c]) cs ?w2 = Inr w'"
        by simp
      have n2: "node_at ?w2 k = (if k = cur @ [c] then Some (Dir True) else node_at w k)"
        by (rule node_at_update)
      from Cons.IH [OF run] n2 None show ?thesis
        by (auto split: if_splits)
    next
      case (Some n)
      with Cons.prems False have "\<exists>b. n = Dir b"
        by (cases n) simp_all
      then obtain b where "n = Dir b" ..
      with Cons.prems Some False have "mkdirs_walk (cur @ [c]) cs w = Inr w'"
        by simp
      from Cons.IH [OF this] show ?thesis .
    qed
  qed
qed

lemma mkdirs_walk_keeps:
  assumes "mkdirs_walk cur cs w = Inr w'" and "node_at w k = Some n"
  shows "node_at w' k = Some n"
  using mkdirs_walk_frame [OF assms(1), of k] assms(2) by auto


lemma os_makedirs_Inr:
  assumes "os_makedirs nm w = Inr w'"
  shows "nm \<noteq> [] \<and> cwd w' = cwd w \<and> stdout w' = stdout w \<and>
         (\<forall>k. node_at w' k = node_at w k \<or>
               (node_at w k = None \<and> node_at w' k = Some (Dir True)))"
proof (cases "nm = [] \<or> os_path_isdir w nm")
  case True
  with assms show ?thesis
    by (auto simp: os_makedirs_def split: if_splits)
next
  case False
  with assms have run: "mkdirs_walk (walk_start w nm) (os_parts nm) w = Inr w'"
    by (simp add: os_makedirs_def)
  from mkdirs_walk_frame [OF run] False show ?thesis
    by blast
qed

lemma os_makedirs_keeps_dirs:
  assumes "os_makedirs nm w = Inr w'" and "is_dir_node (node_at w k)"
  shows "is_dir_node (node_at w' k)"
proof -
  from os_makedirs_Inr [OF assms(1)]
  have "node_at w' k = node_at w k \<or> (node_at w k = None \<and> node_at w' k = Some (Dir True))"
    by blast
  with assms(2) show ?thesis by (auto simp: is_dir_node_def)
qed



lemma os_makedirs_existing:
  "os_path_isdir w nm \<Longrightarrow> os_makedirs nm w = Inr w"
  by (auto simp: os_makedirs_def os_path_isdir_def os_lookup_def split: sum.splits if_splits)

lemma os_makedirs_empty: "os_makedirs [] w = Inl FileNotFoundError"
  by (simp add: os_makedirs_def)

text \<open>Writing a mesh.\<close>

lemma Mesh_save_Inr:
  assumes "Mesh_save w s m = Inr w'"
  shows "\<exists>k. os_lookup w s = Inr k \<and> \<not> must_be_dir s \<and> \<not> is_dir_node (node_at w k)
           \<and> w' = w\<lparr>fs := AList.update k (StlFile m) (fs w)\<rparr>"
proof (cases "os_lookup w s")
  case (Inl e)
  with assms show ?thesis by (simp add: Mesh_save_def)
next
  case (Inr k)
  with assms show ?thesis
    by (cases "must_be_dir s \<or> is_dir_node (node_at w k)") (auto simp: Mesh_save_def)
qed


lemma Mesh_save_written:
  assumes "Mesh_save w s m = Inr w'"
  shows "\<exists>k. os_lookup w s = Inr k \<and> os_lookup w' s = Inr k
           \<and> node_at w' k = Some (StlFile m)
           \<and> (\<forall>k'. k' \<noteq> k \<longrightarrow> node_at w' k' = node_at w k')
           \<and> \<not> is_dir_node (node_at w k)"
proof -
  from Mesh_save_Inr [OF assms] obtain k where
    k: "os_lookup w s = Inr k" and nm: "\<not> must_be_dir s" and
    nd: "\<not> is_dir_node (node_at w k)" and
    w': "w' = w\<lparr>fs := AList.update k (StlFile m) (fs w)\<rparr>"
    by blast
  have n: "node_at w' k' = (if k' = k then Some (StlFile m) else node_at w k')" for k'
    unfolding w' by (rule node_at_update)
  have dirs: "is_dir_node (node_at w' k')" if "is_dir_node (node_at w k')" for k'
    using that nd n [of k'] by (cases "k' = k") simp_all
  have "cwd w' = cwd w"
    by (simp add: w')
  from os_lookup_mono [OF k dirs this] nm have "os_lookup w' s = Inr k"
    by simp
  with k n nd show ?thesis by simp
qed

subsection \<open>The branches of the single-file function\<close>

lemma generate_not_found:
  assumes "\<not> os_path_isfile w inp"
  shows "generate_convex_stl H w inp out = Inr (w\<lparr>stdout := stdout w @ [msg_not_found inp]\<rparr>)"
  using assms by (simp add: generate_convex_stl_def print_def)

lemma generate_too_few:
  assumes "Mesh_from_file w inp = Inr vectors"
      and "length (np_unique (reshape_points vectors)) < 4"
  shows "generate_convex_stl H w inp out =
     Inr (w\<lparr>stdout := stdout w @ [msg_loaded inp (length vectors), msg_not_enough inp]\<rparr>)"
  using assms os_path_isfile_from_file [OF assms(1)]
  by (simp add: generate_convex_stl_def Let_def print_def)

lemma generate_hull_failed:
  assumes "Mesh_from_file w inp = Inr vectors"
      and "4 \<le> length (np_unique (reshape_points vectors))"
      and "H (np_unique (reshape_points vectors)) = Inl e"
  shows "generate_convex_stl H w inp out =
     Inr (w\<lparr>stdout := stdout w @ [msg_loaded inp (length vectors), msg_hull_failed inp e]\<rparr>)"
  using assms os_path_isfile_from_file [OF assms(1)]
  by (simp add: generate_convex_stl_def Let_def print_def)

lemma generate_hull_ok:
  assumes "Mesh_from_file w inp = Inr vectors"
      and "4 \<le> length (np_unique (reshape_points vectors))"
      and "H (np_unique (reshape_points vectors)) = Inr simplices"
  shows "generate_convex_stl H w inp out =
     (case fill_vectors (np_unique (reshape_points vectors)) simplices of
        Inl e \<Rightarrow> Inl e
      | Inr convex_mesh \<Rightarrow>
          (case os_makedirs (dirname out) (print w (msg_loaded inp (length vectors))) of
             Inl e \<Rightarrow> Inl e
           | Inr w2 \<Rightarrow>
               (case Mesh_save w2 out convex_mesh of
                  Inl e \<Rightarrow> Inl e
                | Inr w3 \<Rightarrow> Inr (print w3 (msg_saved out)))))"
  using assms os_path_isfile_from_file [OF assms(1)]
  by (simp add: generate_convex_stl_def Let_def)

lemma np_take_mem: "np_take xs i = Inr a \<Longrightarrow> a \<in> set xs"
  by (auto simp: np_take_def split: if_splits)

lemma take_simplex_mem: "take_simplex xs s = Inr t \<Longrightarrow> set (tri_points t) \<subseteq> set xs"
  by (auto simp: take_simplex_def tri_points_def split: prod.splits sum.splits dest: np_take_mem)

lemma fill_vectors_mem:
  "fill_vectors xs ss = Inr ts \<Longrightarrow>
     length ts = length ss \<and> (\<forall>t \<in> set ts. set (tri_points t) \<subseteq> set xs)"
proof (induction ss arbitrary: ts)
  case Nil
  then show ?case by simp
next
  case (Cons s ss)
  from Cons.prems obtain t ts' where
    t: "take_simplex xs s = Inr t" and ts': "fill_vectors xs ss = Inr ts'" and eq: "ts = t # ts'"
    by (simp split: sum.splits)
  from Cons.IH [OF ts'] take_simplex_mem [OF t] eq show ?case by simp
qed

text \<open>
  What a run of the single-file function can change: it creates directories, and it
  writes one mesh, at the key its output path resolves to.
\<close>

lemma generate_frame:
  fixes H :: "('a::linorder) float32 hull"
  assumes run: "generate_convex_stl H w inp out = Inr w'"
  shows "cwd w' = cwd w \<and>
         (\<forall>k. node_at w' k = node_at w k
             \<or> (node_at w k = None \<and> node_at w' k = Some (Dir True))
             \<or> (\<not> is_dir_node (node_at w k) \<and> os_lookup w' out = Inr k
                \<and> \<not> must_be_dir out \<and> (\<exists>m. node_at w' k = Some (StlFile m))))"
proof (cases "os_path_isfile w inp")
  case False
  from run generate_not_found [where H = H, OF False, of out] show ?thesis by auto
next
  case True
  with run obtain vectors where load: "Mesh_from_file w inp = Inr vectors"
    by (cases "Mesh_from_file w inp") (simp_all add: generate_convex_stl_def)
  let ?vs = "np_unique (reshape_points vectors)"
  show ?thesis
  proof (cases "length ?vs < 4")
    case True
    from run generate_too_few [where H = H, OF load True, of out] show ?thesis by auto
  next
    case False
    then have four: "4 \<le> length ?vs" by simp
    show ?thesis
    proof (cases "H ?vs")
      case (Inl e)
      from run generate_hull_failed [where H = H, OF load four Inl, of out] show ?thesis by auto
    next
      case (Inr simplices)
      from run generate_hull_ok [where H = H, OF load four Inr, of out]
      obtain m wa wb where
        mk: "os_makedirs (dirname out) (print w (msg_loaded inp (length vectors))) = Inr wa" and
        sv: "Mesh_save wa out m = Inr wb" and
        w': "w' = print wb (msg_saved out)"
        by (auto split: sum.splits)
      from os_makedirs_Inr [OF mk] have
        c1: "cwd wa = cwd w" and
        f1: "\<And>k. node_at wa k = node_at w k \<or> (node_at w k = None \<and> node_at wa k = Some (Dir True))"
        by auto
      from Mesh_save_written [OF sv] obtain ko where
        l: "os_lookup wb out = Inr ko" and n: "node_at wb ko = Some (StlFile m)" and
        o: "\<And>k'. k' \<noteq> ko \<Longrightarrow> node_at wb k' = node_at wa k'" and
        nd: "\<not> is_dir_node (node_at wa ko)"
        by blast
      from Mesh_save_Inr [OF sv] have c2: "cwd wb = cwd wa" and nm: "\<not> must_be_dir out"
        by auto
      have "node_at w' k = node_at w k
             \<or> (node_at w k = None \<and> node_at w' k = Some (Dir True))
             \<or> (\<not> is_dir_node (node_at w k) \<and> os_lookup w' out = Inr k
                \<and> \<not> must_be_dir out \<and> (\<exists>m. node_at w' k = Some (StlFile m)))" for k
      proof (cases "k = ko")
        case True
        from f1 [of ko] nd have "\<not> is_dir_node (node_at w ko)"
          by (auto simp: is_dir_node_def)
        with True l n nm show ?thesis by (simp add: w')
      next
        case False
        from o [OF False] f1 [of k] show ?thesis by (auto simp: w')
      qed
      with c1 c2 show ?thesis by (simp add: w')
    qed
  qed
qed


subsection \<open>Trees, children and the loop over the files\<close>

lemma os_lookup_Path_str_walk:
  assumes "wf_path p" and "os_lookup w (Path_str p) = Inr k"
  shows "walk w (if root p = [] then cwd w else []) (parts p) = Inr k"
  using assms(2) hd_Path_str [OF assms(1)] os_parts_Path_str [OF assms(1)]
  by (auto simp: os_lookup_def walk_start_def Path_str_nonempty split: sum.splits if_splits)

lemma walk_single: "n \<noteq> ''..'' \<Longrightarrow> walk w k [n] = Inr (k @ [n])"
  by (simp split: option.splits node.splits)

lemma os_lookup_child:
  assumes "wf_path p" and "part_ok n" and "n \<noteq> ''..''"
      and "os_lookup w (Path_str p) = Inr kd" and "is_dir_node (node_at w kd)"
  shows "os_lookup w (Path_str (p\<lparr>parts := parts p @ [n]\<rparr>)) = Inr (kd @ [n])"
proof -
  let ?q = "p\<lparr>parts := parts p @ [n]\<rparr>"
  from assms(1,2) have q: "wf_path ?q" by (rule wf_path_child)
  have "os_lookup w (Path_str ?q) = walk w (if root ?q = [] then cwd w else []) (parts ?q)"
    by (rule os_lookup_Path_str [OF q]) simp
  also have "\<dots> = walk w (if root p = [] then cwd w else []) (parts p @ [n])"
    by simp
  also have "\<dots> = walk w kd [n]"
    by (rule walk_append_dir [OF os_lookup_Path_str_walk [OF assms(1,4)] assms(5)])
  also have "\<dots> = Inr (kd @ [n])"
    by (rule walk_single [OF assms(3)])
  finally show ?thesis .
qed

text \<open>The tree shape is kept when directories are created.\<close>

lemma wf_world_node:
  assumes "wf_world w" and "node_at w k \<noteq> None"
  shows "node_ok w k"
proof -
  from assms(2) have "k \<in> fst ` set (fs w)"
    by (simp add: node_at_def map_of_eq_None_iff)
  with assms(1) show ?thesis
    by (auto simp: wf_world_def list_all_iff)
qed

lemma wf_world_parent:
  assumes "wf_world w" and "is_dir_node (node_at w k)"
  shows "is_dir_node (node_at w (butlast k))"
proof (cases "k = []")
  case True
  with assms(2) show ?thesis by simp
next
  case False
  from assms(2) have "node_at w k \<noteq> None"
    by (auto simp: is_dir_node_def split: option.splits)
  from wf_world_node [OF assms(1) this] False show ?thesis
    by (simp add: node_ok_def)
qed

lemma wf_world_new_dir:
  assumes wf: "wf_world w" and none: "node_at w (cur @ [c]) = None"
      and c: "name_ok c" and cur: "is_dir_node (node_at w cur)"
  shows "wf_world (w\<lparr>fs := AList.update (cur @ [c]) (Dir True) (fs w)\<rparr>)"
proof -
  let ?w = "w\<lparr>fs := AList.update (cur @ [c]) (Dir True) (fs w)\<rparr>"
  have n: "node_at ?w k = (if k = cur @ [c] then Some (Dir True) else node_at w k)" for k
    by (rule node_at_update)
  have d: "is_dir_node (node_at ?w k)" if "is_dir_node (node_at w k)" for k
    using that n [of k] none by (auto simp: is_dir_node_def)
  have ok: "node_ok ?w k" if "node_ok w k" for k
    using that d [of "butlast k"] by (auto simp: node_ok_def)
  have new: "node_ok ?w (cur @ [c])"
    using c d [OF cur] by (simp add: node_ok_def)
  have "fst ` set (fs ?w) = {cur @ [c]} \<union> fst ` set (fs w)"
    by (simp add: dom_update)
  with wf ok new have "list_all (node_ok ?w) (map fst (fs ?w))"
    by (auto simp: wf_world_def list_all_iff)
  moreover from wf have "is_dir_node (node_at ?w [])" and "is_dir_node (node_at ?w (cwd ?w))"
    using d [of "[]"] d [of "cwd w"] by (simp_all add: wf_world_def)
  ultimately show ?thesis
    by (simp add: wf_world_def)
qed

lemma mkdirs_walk_wf:
  "mkdirs_walk cur cs w = Inr w' \<Longrightarrow> wf_world w \<Longrightarrow> is_dir_node (node_at w cur) \<Longrightarrow>
   (\<And>c. c \<in> set cs \<Longrightarrow> c = ''..'' \<or> name_ok c) \<Longrightarrow>
   wf_world w' \<and> (\<exists>kf. walk w' cur cs = Inr kf \<and> is_dir_node (node_at w' kf))"
proof (induction cs arbitrary: cur w)
  case Nil
  then show ?case by simp
next
  case (Cons c cs)
  have rest: "\<And>d. d \<in> set cs \<Longrightarrow> d = ''..'' \<or> name_ok d"
    using Cons.prems(4) by simp
  show ?case
  proof (cases "c = ''..''")
    case True
    with Cons.prems have run: "mkdirs_walk (butlast cur) cs w = Inr w'" by simp
    from wf_world_parent [OF Cons.prems(2,3)]
    have "is_dir_node (node_at w (butlast cur))" .
    from Cons.IH [OF run Cons.prems(2) this rest] True show ?thesis by simp
  next
    case False
    with Cons.prems(4) [of c] have c: "name_ok c" by simp
    show ?thesis
    proof (cases "node_at w (cur @ [c])")
      case None
      let ?w2 = "w\<lparr>fs := AList.update (cur @ [c]) (Dir True) (fs w)\<rparr>"
      from Cons.prems None False have run: "mkdirs_walk (cur @ [c]) cs ?w2 = Inr w'"
        by simp
      have n2: "node_at ?w2 (cur @ [c]) = Some (Dir True)"
        by (simp add: node_at_update)
      then have d2: "is_dir_node (node_at ?w2 (cur @ [c]))"
        by (simp add: is_dir_node_def)
      from wf_world_new_dir [OF Cons.prems(2) None c Cons.prems(3)] have "wf_world ?w2" .
      from Cons.IH [OF run this d2 rest] obtain kf where
        wf': "wf_world w'" and wk: "walk w' (cur @ [c]) cs = Inr kf" and
        kf: "is_dir_node (node_at w' kf)"
        by blast
      from mkdirs_walk_keeps [OF run n2] have "node_at w' (cur @ [c]) = Some (Dir True)" .
      with wk False have "walk w' cur (c # cs) = Inr kf" by simp
      with wf' kf show ?thesis by blast
    next
      case (Some n)
      with Cons.prems False have "\<exists>b. n = Dir b"
        by (cases n) simp_all
      then obtain b where n: "n = Dir b" ..
      with Cons.prems Some False have run: "mkdirs_walk (cur @ [c]) cs w = Inr w'"
        by simp
      from Some n have d: "is_dir_node (node_at w (cur @ [c]))"
        by (simp add: is_dir_node_def)
      from Cons.IH [OF run Cons.prems(2) d rest] obtain kf where
        wf': "wf_world w'" and wk: "walk w' (cur @ [c]) cs = Inr kf" and
        kf: "is_dir_node (node_at w' kf)"
        by blast
      from mkdirs_walk_keeps [OF run Some] n have "node_at w' (cur @ [c]) = Some (Dir b)"
        by simp
      with wk False have "walk w' cur (c # cs) = Inr kf" by simp
      with wf' kf show ?thesis by blast
    qed
  qed
qed

lemma os_parts_names: "c \<in> set (os_parts s) \<Longrightarrow> c = ''..'' \<or> name_ok c"
  by (auto simp: os_parts_def keep_part_def name_ok_def part_ok_def dest: split_sep_pieces)

text \<open>After the directories have been created, the name is a directory.\<close>

lemma os_makedirs_isdir:
  assumes mk: "os_makedirs nm w = Inr w'" and wf: "wf_world w"
  shows "wf_world w' \<and> os_path_isdir w' nm"
proof (cases "os_path_isdir w nm")
  case True
  with mk wf show ?thesis
    by (auto simp: os_makedirs_def split: if_splits)
next
  case False
  with mk have ne: "nm \<noteq> []" and
    run: "mkdirs_walk (walk_start w nm) (os_parts nm) w = Inr w'"
    by (auto simp: os_makedirs_def split: if_splits)
  from wf have "is_dir_node (node_at w (walk_start w nm))"
    by (simp add: wf_world_def walk_start_def)
  moreover have "\<And>c. c \<in> set (os_parts nm) \<Longrightarrow> c = ''..'' \<or> name_ok c"
    by (rule os_parts_names)
  ultimately obtain kf where
    wf': "wf_world w'" and wk: "walk w' (walk_start w nm) (os_parts nm) = Inr kf" and
    kf: "is_dir_node (node_at w' kf)"
    using mkdirs_walk_wf [OF run wf] by blast
  from os_makedirs_Inr [OF mk] have "walk_start w' nm = walk_start w nm"
    by (simp add: walk_start_def)
  with wk kf ne have "os_lookup w' nm = Inr kf"
    by (auto simp: os_lookup_def is_dir_node_def is_file_node_def
        split: option.splits node.splits)
  with kf wf' show ?thesis
    by (simp add: os_path_isdir_def)
qed

text \<open>Listing a directory gives the children that exist, and they have names.\<close>

lemma Path_iterdir_Inr:
  assumes "Path_iterdir w pd = Inr entries"
  shows "\<exists>kd. os_lookup w (Path_str pd) = Inr kd \<and> node_at w kd = Some (Dir True)
           \<and> entries = map (\<lambda>n. pd\<lparr>parts := parts pd @ [n]\<rparr>) (entry_names kd (fs w))"
  using assms
  by (auto simp: Path_iterdir_def os_listdir_def
      split: sum.splits option.splits node.splits if_splits)

lemma entry_names_exist:
  assumes "n \<in> set (entry_names kd al)"
  shows "map_of al (kd @ [n]) \<noteq> None"
proof -
  from assms obtain e where e: "e \<in> set al" "fst e \<noteq> []" "butlast (fst e) = kd" "n = last (fst e)"
    by (auto simp: entry_names_def)
  then have "fst e = kd @ [n]"
    by (metis append_butlast_last_id)
  with e(1) have "kd @ [n] \<in> fst ` set al"
    by (metis imageI)
  then show ?thesis
    by (simp add: map_of_eq_None_iff)
qed

lemma listed_entry:
  assumes it: "Path_iterdir w pd = Inr entries" and wf: "wf_world w" and pd: "wf_path pd"
      and p: "p \<in> set entries"
  shows "\<exists>kd n. os_lookup w (Path_str pd) = Inr kd \<and> node_at w kd = Some (Dir True)
           \<and> p = pd\<lparr>parts := parts pd @ [n]\<rparr> \<and> name_ok n \<and> wf_path p \<and> Path_name p = n
           \<and> os_lookup w (Path_str p) = Inr (kd @ [n]) \<and> node_at w (kd @ [n]) \<noteq> None"
proof -
  from Path_iterdir_Inr [OF it] obtain kd where
    kd: "os_lookup w (Path_str pd) = Inr kd" and d: "node_at w kd = Some (Dir True)" and
    e: "entries = map (\<lambda>n. pd\<lparr>parts := parts pd @ [n]\<rparr>) (entry_names kd (fs w))"
    by blast
  from p e obtain n where n: "n \<in> set (entry_names kd (fs w))" and
    pn: "p = pd\<lparr>parts := parts pd @ [n]\<rparr>"
    by auto
  from entry_names_exist [OF n] have ex: "node_at w (kd @ [n]) \<noteq> None"
    by (simp add: node_at_def)
  from wf_world_node [OF wf ex] have ok: "name_ok n"
    by (simp add: node_ok_def)
  then have po: "part_ok n" and nd: "n \<noteq> ''..''"
    by (simp_all add: name_ok_def)
  from d have dd: "is_dir_node (node_at w kd)"
    by (simp add: is_dir_node_def)
  from os_lookup_child [OF pd po nd kd dd] have "os_lookup w (Path_str p) = Inr (kd @ [n])"
    by (simp add: pn)
  moreover from wf_path_child [OF pd po] have "wf_path p" by (simp add: pn)
  moreover have "Path_name p = n" by (simp add: pn Path_name_def)
  ultimately show ?thesis using kd d pn ok ex by blast
qed

text \<open>
  What the loop can change: it creates directories, and it writes meshes at the keys
  the output paths of its files resolve to.
\<close>

lemma process_files_frame:
  fixes H :: "('a::linorder) float32 hull"
  shows "process_files H od sfx files w = Inr w' \<Longrightarrow>
     cwd w' = cwd w \<and>
     (\<forall>k. node_at w' k = node_at w k
         \<or> (node_at w k = None \<and> node_at w' k = Some (Dir True))
         \<or> (\<not> is_dir_node (node_at w k)
            \<and> (\<exists>p \<in> set files. os_lookup w' (Path_str (out_path od sfx p)) = Inr k)
            \<and> (\<exists>m. node_at w' k = Some (StlFile m))))"
proof (induction files arbitrary: w)
  case Nil
  then show ?case by simp
next
  case (Cons f files)
  from Cons.prems obtain wa where
    g: "generate_convex_stl H w (Path_str f) (Path_str (out_path od sfx f)) = Inr wa" and
    r: "process_files H od sfx files wa = Inr w'"
    by (auto split: sum.splits)
  from generate_frame [OF g] have c1: "cwd wa = cwd w" and
    f1: "\<And>k. node_at wa k = node_at w k
          \<or> (node_at w k = None \<and> node_at wa k = Some (Dir True))
          \<or> (\<not> is_dir_node (node_at w k)
             \<and> os_lookup wa (Path_str (out_path od sfx f)) = Inr k
             \<and> \<not> must_be_dir (Path_str (out_path od sfx f))
             \<and> (\<exists>m. node_at wa k = Some (StlFile m)))"
    by blast+
  from Cons.IH [OF r] have c2: "cwd w' = cwd wa" and
    f2: "\<And>k. node_at w' k = node_at wa k
          \<or> (node_at wa k = None \<and> node_at w' k = Some (Dir True))
          \<or> (\<not> is_dir_node (node_at wa k)
             \<and> (\<exists>p \<in> set files. os_lookup w' (Path_str (out_path od sfx p)) = Inr k)
             \<and> (\<exists>m. node_at w' k = Some (StlFile m)))"
    by blast+
  have dirs: "is_dir_node (node_at w' k)" if "is_dir_node (node_at wa k)" for k
    using f2 [of k] that by (auto simp: is_dir_node_def)
  have "node_at w' k = node_at w k
          \<or> (node_at w k = None \<and> node_at w' k = Some (Dir True))
          \<or> (\<not> is_dir_node (node_at w k)
             \<and> (\<exists>p \<in> set (f # files). os_lookup w' (Path_str (out_path od sfx p)) = Inr k)
             \<and> (\<exists>m. node_at w' k = Some (StlFile m)))" for k
  proof -
    consider (same) "node_at w' k = node_at wa k"
      | (newdir) "node_at wa k = None" "node_at w' k = Some (Dir True)"
      | (written) "\<not> is_dir_node (node_at wa k)"
          "\<exists>p \<in> set files. os_lookup w' (Path_str (out_path od sfx p)) = Inr k"
          "\<exists>m. node_at w' k = Some (StlFile m)"
      using f2 [of k] by auto
    then show ?thesis
    proof cases
      case same
      consider (s1) "node_at wa k = node_at w k"
        | (n1) "node_at w k = None" "node_at wa k = Some (Dir True)"
        | (w1) "\<not> is_dir_node (node_at w k)"
            "os_lookup wa (Path_str (out_path od sfx f)) = Inr k"
            "\<not> must_be_dir (Path_str (out_path od sfx f))"
            "\<exists>m. node_at wa k = Some (StlFile m)"
        using f1 [of k] by auto
      then show ?thesis
      proof cases
        case s1
        with same show ?thesis by simp
      next
        case n1
        with same show ?thesis by simp
      next
        case w1
        from os_lookup_mono [OF w1(2) dirs c2] w1(3)
        have "os_lookup w' (Path_str (out_path od sfx f)) = Inr k" by blast
        with w1 same show ?thesis by auto
      qed
    next
      case newdir
      with f1 [of k] show ?thesis by auto
    next
      case written
      from f1 [of k] written(1) have "\<not> is_dir_node (node_at w k)"
        by (auto simp: is_dir_node_def)
      with written show ?thesis by auto
    qed
  qed
  with c1 c2 show ?case by simp
qed

lemma process_files_keeps_dirs:
  fixes H :: "('a::linorder) float32 hull"
  assumes "process_files H od sfx files w = Inr w'" and "is_dir_node (node_at w k)"
  shows "is_dir_node (node_at w' k)"
proof -
  from process_files_frame [OF assms(1)] have
    "node_at w' k = node_at w k
       \<or> (node_at w k = None \<and> node_at w' k = Some (Dir True))
       \<or> (\<not> is_dir_node (node_at w k)
          \<and> (\<exists>p \<in> set files. os_lookup w' (Path_str (out_path od sfx p)) = Inr k)
          \<and> (\<exists>m. node_at w' k = Some (StlFile m)))"
    by blast
  with assms(2) show ?thesis by (auto simp: is_dir_node_def)
qed

text \<open>The batch, once its output directory is there and its input directory is listed.\<close>

lemma batch_unfold:
  "batch_convex_hull_generation ConvexHull w input_directory output_directory sfx =
     (case Path_mkdir (case output_directory of None \<Rightarrow> Path input_directory
                                               | Some d \<Rightarrow> Path d) w of
        Inl e \<Rightarrow> Inl e
      | Inr w1 \<Rightarrow>
          (case Path_iterdir w1 (Path input_directory) of
             Inl e \<Rightarrow> Inl e
           | Inr entries \<Rightarrow>
               if stl_files entries = []
               then Inr (print w1 (msg_no_stl (Path_str (Path input_directory))))
               else process_files ConvexHull
                      (case output_directory of None \<Rightarrow> Path input_directory
                                               | Some d \<Rightarrow> Path d) sfx
                      (stl_files entries)
                      (print w1 (msg_found (length (stl_files entries))
                         (Path_str (Path input_directory))))))"
  by (simp add: batch_convex_hull_generation_def Let_def)

lemma sorted_stl_files: "sorted (map cparts (stl_files entries))"
  by (simp add: stl_files_def)

lemma mset_stl_files: "mset (stl_files entries) = mset (filter is_stl entries)"
  by (simp add: stl_files_def)

lemma set_stl_files:
  "set (stl_files entries) = {p \<in> set entries. str_lower (Path_suffix p) = ''.stl''}"
  by (auto simp: stl_files_def is_stl_def)

subsection \<open>The script keeps the filesystem a tree\<close>

lemma wf_world_stdout [simp]: "wf_world (w\<lparr>stdout := s\<rparr>) = wf_world w"
  by (simp add: wf_world_def node_ok_def [abs_def])

lemma wf_world_print [simp]: "wf_world (print w s) = wf_world w"
  by (simp add: print_def)

lemma walk_node_ok:
  "walk w cur cs = Inr k \<Longrightarrow> wf_world w \<Longrightarrow> is_dir_node (node_at w cur) \<Longrightarrow>
   (\<And>c. c \<in> set cs \<Longrightarrow> c = ''..'' \<or> name_ok c) \<Longrightarrow> node_ok w k"
proof (induction cs arbitrary: cur)
  case Nil
  then have "node_at w k \<noteq> None"
    by (auto simp: is_dir_node_def split: option.splits)
  from wf_world_node [OF Nil.prems(2) this] show ?case .
next
  case (Cons c cs)
  have rest: "\<And>d. d \<in> set cs \<Longrightarrow> d = ''..'' \<or> name_ok d"
    using Cons.prems(4) by simp
  show ?case
  proof (cases "c = ''..''")
    case True
    with Cons.prems have run: "walk w (butlast cur) cs = Inr k" by simp
    from wf_world_parent [OF Cons.prems(2,3)]
    have "is_dir_node (node_at w (butlast cur))" .
    from Cons.IH [OF run Cons.prems(2) this rest] show ?thesis .
  next
    case False
    with Cons.prems(4) [of c] have c: "name_ok c" by simp
    show ?thesis
    proof (cases "is_dir_node (node_at w (cur @ [c]))")
      case True
      with False Cons.prems(1) have run: "walk w (cur @ [c]) cs = Inr k"
        by (auto simp: is_dir_node_def split: option.splits node.splits)
      from Cons.IH [OF run Cons.prems(2) True rest] show ?thesis .
    next
      case nd: False
      with False Cons.prems(1) have "k = cur @ [c]"
        by (auto simp: is_dir_node_def split: option.splits node.splits if_splits)
      with c Cons.prems(3) show ?thesis
        by (simp add: node_ok_def)
    qed
  qed
qed

lemma Mesh_save_wf:
  assumes sv: "Mesh_save w s m = Inr w'" and wf: "wf_world w"
  shows "wf_world w'"
proof -
  from Mesh_save_Inr [OF sv] obtain k where
    k: "os_lookup w s = Inr k" and nd: "\<not> is_dir_node (node_at w k)" and
    w': "w' = w\<lparr>fs := AList.update k (StlFile m) (fs w)\<rparr>"
    by blast
  from k have wk: "walk w (walk_start w s) (os_parts s) = Inr k"
    by (auto simp: os_lookup_def split: if_splits sum.splits)
  from wf have "is_dir_node (node_at w (walk_start w s))"
    by (simp add: wf_world_def walk_start_def)
  moreover have "\<And>c. c \<in> set (os_parts s) \<Longrightarrow> c = ''..'' \<or> name_ok c"
    by (rule os_parts_names)
  ultimately have ok: "node_ok w k"
    using walk_node_ok [OF wk wf] by blast
  have n: "node_at w' k' = (if k' = k then Some (StlFile m) else node_at w k')" for k'
    unfolding w' by (rule node_at_update)
  have d: "is_dir_node (node_at w' k')" if "is_dir_node (node_at w k')" for k'
    using that nd n [of k'] by (cases "k' = k") simp_all
  have keep: "node_ok w' k'" if "node_ok w k'" for k'
    using that d [of "butlast k'"] by (auto simp: node_ok_def)
  have "fst ` set (fs w') = {k} \<union> fst ` set (fs w)"
    by (simp add: w' dom_update)
  with wf keep ok have "list_all (node_ok w') (map fst (fs w'))"
    by (auto simp: wf_world_def list_all_iff)
  moreover from wf have "is_dir_node (node_at w' [])" and "is_dir_node (node_at w' (cwd w'))"
    using d [of "[]"] d [of "cwd w"] by (simp_all add: wf_world_def w')
  ultimately show ?thesis
    by (simp add: wf_world_def)
qed

lemma generate_wf:
  fixes H :: "('a::linorder) float32 hull"
  assumes run: "generate_convex_stl H w inp out = Inr w'" and wf: "wf_world w"
  shows "wf_world w'"
proof (cases "os_path_isfile w inp")
  case False
  from run generate_not_found [where H = H, OF False, of out] wf show ?thesis by auto
next
  case True
  with run obtain vectors where load: "Mesh_from_file w inp = Inr vectors"
    by (cases "Mesh_from_file w inp") (simp_all add: generate_convex_stl_def)
  let ?vs = "np_unique (reshape_points vectors)"
  show ?thesis
  proof (cases "length ?vs < 4")
    case True
    from run generate_too_few [where H = H, OF load True, of out] wf show ?thesis by auto
  next
    case False
    then have four: "4 \<le> length ?vs" by simp
    show ?thesis
    proof (cases "H ?vs")
      case (Inl e)
      from run generate_hull_failed [where H = H, OF load four Inl, of out] wf
      show ?thesis by auto
    next
      case (Inr simplices)
      from run generate_hull_ok [where H = H, OF load four Inr, of out]
      obtain m wa wb where
        mk: "os_makedirs (dirname out) (print w (msg_loaded inp (length vectors))) = Inr wa" and
        sv: "Mesh_save wa out m = Inr wb" and
        w': "w' = print wb (msg_saved out)"
        by (auto split: sum.splits)
      from wf have "wf_world (print w (msg_loaded inp (length vectors)))" by simp
      from os_makedirs_isdir [OF mk this] have "wf_world wa" by simp
      from Mesh_save_wf [OF sv this] show ?thesis by (simp add: w')
    qed
  qed
qed

lemma process_files_wf:
  fixes H :: "('a::linorder) float32 hull"
  shows "process_files H od sfx files w = Inr w' \<Longrightarrow> wf_world w \<Longrightarrow> wf_world w'"
proof (induction files arbitrary: w)
  case Nil
  then show ?case by simp
next
  case (Cons f files)
  from Cons.prems(1) obtain wa where
    g: "generate_convex_stl H w (Path_str f) (Path_str (out_path od sfx f)) = Inr wa" and
    r: "process_files H od sfx files wa = Inr w'"
    by (auto split: sum.splits)
  from Cons.IH [OF r generate_wf [OF g Cons.prems(2)]] show ?case .
qed

lemma batch_wf:
  fixes H :: "('a::linorder) float32 hull"
  assumes run: "batch_convex_hull_generation H w d od sfx = Inr w'" and wf: "wf_world w"
  shows "wf_world w'"
proof -
  let ?od = "case od of None \<Rightarrow> Path d | Some x \<Rightarrow> Path x"
  from run obtain w1 entries where
    mk: "Path_mkdir ?od w = Inr w1" and
    r: "(if stl_files entries = []
         then Inr (print w1 (msg_no_stl (Path_str (Path d))))
         else process_files H ?od sfx (stl_files entries)
                (print w1 (msg_found (length (stl_files entries)) (Path_str (Path d))))) = Inr w'"
    by (auto simp: batch_unfold split: sum.splits)
  from os_makedirs_isdir [of "Path_str ?od" w w1] mk wf have w1: "wf_world w1"
    by (simp add: Path_mkdir_def)
  show ?thesis
  proof (cases "stl_files entries = []")
    case True
    with r w1 show ?thesis by auto
  next
    case False
    with r have "process_files H ?od sfx (stl_files entries)
       (print w1 (msg_found (length (stl_files entries)) (Path_str (Path d)))) = Inr w'"
      by simp
    from process_files_wf [OF this] w1 show ?thesis by simp
  qed
qed

subsection \<open>The concrete inputs, evaluated\<close>

lemmas path_string_defs =
  os_parts_def is_sep_def keep_part_def dirname_def Path_def splitroot_def Path_str_def
  Path_truediv_def Path_name_def Path_suffix_def Path_stem_def has_suffix_def after_dot_def
  str_lower_def char_lower_def out_name_def out_path_def is_stl_def cparts_def must_be_dir_def
  walk_start_def part_ok_def wf_path_def

lemmas message_defs =
  msg_not_found_def msg_loaded_def msg_not_enough_def msg_hull_failed_def msg_saved_def
  msg_no_stl_def msg_found_def str_nat.simps

lemmas run_defs =
  batch_convex_hull_generation_def Let_def Path_mkdir_def os_makedirs_def
  Path_iterdir_def os_listdir_def entry_names_def os_lookup_def path_string_defs node_at_def
  is_dir_node_def is_file_node_def stl_files_def generate_convex_stl_def os_path_isfile_def
  os_path_exists_def os_path_isdir_def Mesh_from_file_def Mesh_save_def np_unique_def
  row_eq_def reshape_points_def tri_points_def take_simplex_def np_take_def print_def
  message_defs pt_def

lemmas mesh_defs =
  tetra_mesh_def tetra_shuffled_def flat_mesh_def square_mesh_def tetra_hull_mesh_def

lemma demo_from_file_tetra: "Mesh_from_file demo_world ''in/tetra.stl'' = Inr tetra_mesh"
  by (simp add: run_defs demo_world_def)

lemma demo_from_file_flat: "Mesh_from_file demo_world ''in/flat.stl'' = Inr flat_mesh"
  by (simp add: run_defs demo_world_def)

lemma demo_from_file_square: "Mesh_from_file demo_world ''in/square.STL'' = Inr square_mesh"
  by (simp add: run_defs demo_world_def)

lemma unique_tetra:
  "np_unique (reshape_points tetra_mesh) = [pt 0 0 0, pt 0 0 1, pt 0 1 0, pt 1 0 0]"
  by (simp add: run_defs mesh_defs)

lemma unique_flat:
  "np_unique (reshape_points flat_mesh) = [pt 0 0 0, pt 0 1 0, pt 1 0 0]"
  by (simp add: run_defs mesh_defs)

lemma unique_square:
  "np_unique (reshape_points square_mesh) = [pt 0 0 0, pt 0 1 0, pt 1 0 0, pt 1 1 0]"
  by (simp add: run_defs mesh_defs)

lemma fill_tetra:
  "fill_vectors [pt 0 0 0, pt 0 0 1, pt 0 1 0, pt 1 0 0]
     [(0, 1, 2), (0, 1, 3), (0, 2, 3), (1, 2, 3)] = Inr tetra_hull_mesh"
  by (simp add: take_simplex_def np_take_def tetra_hull_mesh_def)

lemma fill_square:
  "fill_vectors [pt 0 0 0, pt 0 1 0, pt 1 0 0, pt 1 1 0]
     [(0, 1, 2), (0, 1, 3), (0, 2, 3), (1, 2, 3)] =
   Inr [(pt 0 0 0, pt 0 1 0, pt 1 0 0), (pt 0 0 0, pt 0 1 0, pt 1 1 0),
        (pt 0 0 0, pt 1 0 0, pt 1 1 0), (pt 0 1 0, pt 1 0 0, pt 1 1 0)]"
  by (simp add: take_simplex_def np_take_def)

lemma demo_generate_tetra:
  "generate_convex_stl hull_tetra demo_world ''in/tetra.stl'' ''out/tetra_convex.stl'' =
     Inr demo_world_after"
  by (simp add: run_defs mesh_defs hull_tetra_def demo_world_def demo_world_after_def)

subsection \<open>One file\<close>

text \<open>
  C1. When the mesh file loads, its deduplicated point cloud has at least four rows,
  the hull library answers with facets and the function returns, the output path holds a
  mesh with one triangle per facet, obtained by looking the three indices of each facet
  up in the point cloud; so every corner of every output triangle is a row of the point
  cloud, and the rows of the point cloud are the corners of the input triangles.
\<close>

theorem output_vertices_from_point_cloud:
  fixes ConvexHull :: "('a::linorder) float32 hull"
  assumes "Mesh_from_file w input_stl_path = Inr vectors"
      and "4 \<le> length (np_unique (reshape_points vectors))"
      and "ConvexHull (np_unique (reshape_points vectors)) = Inr simplices"
      and "generate_convex_stl ConvexHull w input_stl_path output_stl_path = Inr w'"
  shows "\<exists>k convex_mesh.
           os_lookup w' output_stl_path = Inr k
         \<and> node_at w' k = Some (StlFile convex_mesh)
         \<and> fill_vectors (np_unique (reshape_points vectors)) simplices = Inr convex_mesh
         \<and> length convex_mesh = length simplices
         \<and> (\<forall>t \<in> set convex_mesh.
              set (tri_points t) \<subseteq> set (np_unique (reshape_points vectors)))
         \<and> set (np_unique (reshape_points vectors)) = set (reshape_points vectors)"
proof -
  let ?vs = "np_unique (reshape_points vectors)"
  have "generate_convex_stl ConvexHull w input_stl_path output_stl_path =
     (case fill_vectors ?vs simplices of
        Inl e \<Rightarrow> Inl e
      | Inr convex_mesh \<Rightarrow>
          (case os_makedirs (dirname output_stl_path)
                  (print w (msg_loaded input_stl_path (length vectors))) of
             Inl e \<Rightarrow> Inl e
           | Inr w2 \<Rightarrow>
               (case Mesh_save w2 output_stl_path convex_mesh of
                  Inl e \<Rightarrow> Inl e
                | Inr w3 \<Rightarrow> Inr (print w3 (msg_saved output_stl_path)))))"
    by (rule generate_hull_ok [where H = ConvexHull, OF assms(1) assms(2) assms(3)])
  with assms(4) obtain convex_mesh w2 w3 where
    f: "fill_vectors ?vs simplices = Inr convex_mesh" and
    s: "Mesh_save w2 output_stl_path convex_mesh = Inr w3" and
    w': "w' = print w3 (msg_saved output_stl_path)"
    by (auto split: sum.splits)
  from Mesh_save_written [OF s] obtain k where
    k: "os_lookup w3 output_stl_path = Inr k" "node_at w3 k = Some (StlFile convex_mesh)"
    by blast
  from fill_vectors_mem [OF f] k f w' show ?thesis
    by (simp add: set_np_unique)
qed

theorem output_vertices_from_point_cloud_witness:
  "Mesh_from_file demo_world ''in/tetra.stl'' = Inr tetra_mesh
   \<and> 4 \<le> length (np_unique (reshape_points tetra_mesh))
   \<and> hull_tetra (np_unique (reshape_points tetra_mesh))
        = Inr [(0, 1, 2), (0, 1, 3), (0, 2, 3), (1, 2, 3)]
   \<and> generate_convex_stl hull_tetra demo_world ''in/tetra.stl'' ''out/tetra_convex.stl''
        = Inr demo_world_after
   \<and> (\<exists>k convex_mesh.
           os_lookup demo_world_after ''out/tetra_convex.stl'' = Inr k
         \<and> node_at demo_world_after k = Some (StlFile convex_mesh)
         \<and> fill_vectors (np_unique (reshape_points tetra_mesh))
              [(0, 1, 2), (0, 1, 3), (0, 2, 3), (1, 2, 3)] = Inr convex_mesh
         \<and> length convex_mesh = length [(0, 1, 2), (0, 1, 3), (0, 2, 3), (1 :: int, 2 :: int, 3 :: int)]
         \<and> (\<forall>t \<in> set convex_mesh.
              set (tri_points t) \<subseteq> set (np_unique (reshape_points tetra_mesh)))
         \<and> set (np_unique (reshape_points tetra_mesh)) = set (reshape_points tetra_mesh))"
proof -
  have a: "4 \<le> length (np_unique (reshape_points tetra_mesh))"
    by (simp add: unique_tetra)
  have b: "hull_tetra (np_unique (reshape_points tetra_mesh))
             = Inr [(0, 1, 2), (0, 1, 3), (0, 2, 3), (1, 2, 3)]"
    by (simp add: hull_tetra_def)
  from output_vertices_from_point_cloud
         [where ConvexHull = hull_tetra, OF demo_from_file_tetra a b demo_generate_tetra]
    demo_from_file_tetra a b demo_generate_tetra
  show ?thesis by blast
qed

text \<open>
  C3. When the mesh file loads and its deduplicated point cloud has fewer than four rows,
  the function returns normally; the filesystem is as before, and the output has one line
  more for the load and one warning. In the loop of the batch the next file is processed
  from that world.
\<close>

theorem too_few_vertices_skipped:
  fixes ConvexHull :: "('a::linorder) float32 hull"
  assumes "Mesh_from_file w input_stl_path = Inr vectors"
      and "length (np_unique (reshape_points vectors)) < 4"
  shows "generate_convex_stl ConvexHull w input_stl_path output_stl_path =
           Inr (w\<lparr>stdout := stdout w @
                  [msg_loaded input_stl_path (length vectors), msg_not_enough input_stl_path]\<rparr>)
       \<and> (input_stl_path = Path_str in_path
            \<and> output_stl_path = Path_str (out_path output_dir sfx in_path)
          \<longrightarrow> process_files ConvexHull output_dir sfx (in_path # rest) w =
              process_files ConvexHull output_dir sfx rest
                (w\<lparr>stdout := stdout w @
                  [msg_loaded input_stl_path (length vectors), msg_not_enough input_stl_path]\<rparr>))"
  using generate_too_few [where H = ConvexHull and out = output_stl_path, OF assms] by auto

theorem too_few_vertices_skipped_witness:
  "Mesh_from_file demo_world ''in/flat.stl'' = Inr flat_mesh
   \<and> length (np_unique (reshape_points flat_mesh)) = 3
   \<and> ''in/flat.stl'' = Path_str (Path ''in/flat.stl'')
   \<and> ''out/flat_convex.stl'' = Path_str (out_path (Path ''out'') ''_convex'' (Path ''in/flat.stl''))
   \<and> generate_convex_stl hull_tetra demo_world ''in/flat.stl'' ''out/flat_convex.stl'' =
        Inr (demo_world\<lparr>stdout :=
               [''[INFO] Loaded in/flat.stl with 2 triangles.'',
                ''[WARN] Not enough vertices to form a 3D convex hull: in/flat.stl'']\<rparr>)
   \<and> process_files hull_tetra (Path ''out'') ''_convex'' [Path ''in/flat.stl''] demo_world =
        Inr (demo_world\<lparr>stdout :=
               [''[INFO] Loaded in/flat.stl with 2 triangles.'',
                ''[WARN] Not enough vertices to form a 3D convex hull: in/flat.stl'']\<rparr>)"
proof -
  have a: "length (np_unique (reshape_points flat_mesh)) < 4"
    by (simp add: unique_flat)
  have p: "''in/flat.stl'' = Path_str (Path ''in/flat.stl'')"
    by (simp add: path_string_defs)
  have q: "''out/flat_convex.stl''
             = Path_str (out_path (Path ''out'') ''_convex'' (Path ''in/flat.stl''))"
    by (simp add: path_string_defs)
  have m: "stdout demo_world @
             [msg_loaded ''in/flat.stl'' (length flat_mesh), msg_not_enough ''in/flat.stl'']
           = [''[INFO] Loaded in/flat.stl with 2 triangles.'',
              ''[WARN] Not enough vertices to form a 3D convex hull: in/flat.stl'']"
    by (simp add: demo_world_def flat_mesh_def message_defs)
  from too_few_vertices_skipped
         [where ConvexHull = hull_tetra and output_stl_path = "''out/flat_convex.stl''"
            and in_path = "Path ''in/flat.stl''" and output_dir = "Path ''out''"
            and sfx = "''_convex''" and rest = "[]",
          OF demo_from_file_flat a]
    p q
  have "generate_convex_stl hull_tetra demo_world ''in/flat.stl'' ''out/flat_convex.stl'' =
          Inr (demo_world\<lparr>stdout := stdout demo_world @
                 [msg_loaded ''in/flat.stl'' (length flat_mesh), msg_not_enough ''in/flat.stl'']\<rparr>)"
    and "process_files hull_tetra (Path ''out'') ''_convex'' [Path ''in/flat.stl''] demo_world =
          Inr (demo_world\<lparr>stdout := stdout demo_world @
                 [msg_loaded ''in/flat.stl'' (length flat_mesh), msg_not_enough ''in/flat.stl'']\<rparr>)"
    by simp_all
  with demo_from_file_flat p q show ?thesis
    unfolding m by (simp add: unique_flat)
qed

text \<open>
  C4. When the mesh file loads, the point cloud has at least four rows and the hull
  library raises, the function returns normally; the filesystem is as before, and the
  output has one line more for the load and one error line that ends with the text of the
  exception. In the loop of the batch the next file is processed from that world.
\<close>

theorem hull_failure_skipped:
  fixes ConvexHull :: "('a::linorder) float32 hull"
  assumes "Mesh_from_file w input_stl_path = Inr vectors"
      and "4 \<le> length (np_unique (reshape_points vectors))"
      and "ConvexHull (np_unique (reshape_points vectors)) = Inl e"
  shows "generate_convex_stl ConvexHull w input_stl_path output_stl_path =
           Inr (w\<lparr>stdout := stdout w @
                  [msg_loaded input_stl_path (length vectors), msg_hull_failed input_stl_path e]\<rparr>)
       \<and> (input_stl_path = Path_str in_path
            \<and> output_stl_path = Path_str (out_path output_dir sfx in_path)
          \<longrightarrow> process_files ConvexHull output_dir sfx (in_path # rest) w =
              process_files ConvexHull output_dir sfx rest
                (w\<lparr>stdout := stdout w @
                  [msg_loaded input_stl_path (length vectors), msg_hull_failed input_stl_path e]\<rparr>))"
  using generate_hull_failed [where H = ConvexHull and out = output_stl_path, OF assms] by auto

theorem hull_failure_skipped_witness:
  "Mesh_from_file demo_world ''in/square.STL'' = Inr square_mesh
   \<and> length (np_unique (reshape_points square_mesh)) = 4
   \<and> hull_flat (np_unique (reshape_points square_mesh))
        = Inl ''QH6154 Qhull precision error: Initial simplex is flat''
   \<and> ''in/square.STL'' = Path_str (Path ''in/square.STL'')
   \<and> ''out/square_convex.stl''
        = Path_str (out_path (Path ''out'') ''_convex'' (Path ''in/square.STL''))
   \<and> generate_convex_stl hull_flat demo_world ''in/square.STL'' ''out/square_convex.stl'' =
        Inr (demo_world\<lparr>stdout :=
               [''[INFO] Loaded in/square.STL with 2 triangles.'',
                ''[ERROR] Failed to compute convex hull for in/square.STL: QH6154 Qhull precision error: Initial simplex is flat'']\<rparr>)
   \<and> process_files hull_flat (Path ''out'') ''_convex'' [Path ''in/square.STL''] demo_world =
        Inr (demo_world\<lparr>stdout :=
               [''[INFO] Loaded in/square.STL with 2 triangles.'',
                ''[ERROR] Failed to compute convex hull for in/square.STL: QH6154 Qhull precision error: Initial simplex is flat'']\<rparr>)"
proof -
  have a: "4 \<le> length (np_unique (reshape_points square_mesh))"
    by (simp add: unique_square)
  have b: "hull_flat (np_unique (reshape_points square_mesh))
             = Inl ''QH6154 Qhull precision error: Initial simplex is flat''"
    by (simp add: hull_flat_def)
  have p: "''in/square.STL'' = Path_str (Path ''in/square.STL'')"
    by (simp add: path_string_defs)
  have q: "''out/square_convex.stl''
             = Path_str (out_path (Path ''out'') ''_convex'' (Path ''in/square.STL''))"
    by (simp add: path_string_defs)
  have m: "stdout demo_world @
             [msg_loaded ''in/square.STL'' (length square_mesh),
              msg_hull_failed ''in/square.STL''
                ''QH6154 Qhull precision error: Initial simplex is flat'']
           = [''[INFO] Loaded in/square.STL with 2 triangles.'',
              ''[ERROR] Failed to compute convex hull for in/square.STL: QH6154 Qhull precision error: Initial simplex is flat'']"
    by (simp add: demo_world_def square_mesh_def message_defs)
  from hull_failure_skipped
         [where ConvexHull = hull_flat and output_stl_path = "''out/square_convex.stl''"
            and in_path = "Path ''in/square.STL''" and output_dir = "Path ''out''"
            and sfx = "''_convex''" and rest = "[]",
          OF demo_from_file_square a b]
    p q
  have "generate_convex_stl hull_flat demo_world ''in/square.STL'' ''out/square_convex.stl'' =
          Inr (demo_world\<lparr>stdout := stdout demo_world @
                 [msg_loaded ''in/square.STL'' (length square_mesh),
                  msg_hull_failed ''in/square.STL''
                    ''QH6154 Qhull precision error: Initial simplex is flat'']\<rparr>)"
    and "process_files hull_flat (Path ''out'') ''_convex'' [Path ''in/square.STL''] demo_world =
          Inr (demo_world\<lparr>stdout := stdout demo_world @
                 [msg_loaded ''in/square.STL'' (length square_mesh),
                  msg_hull_failed ''in/square.STL''
                    ''QH6154 Qhull precision error: Initial simplex is flat'']\<rparr>)"
    by simp_all
  with demo_from_file_square b p q show ?thesis
    unfolding m by (simp add: unique_square)
qed

subsection \<open>An output path without a directory part\<close>

text \<open>
  C9. For an output path with no directory part \<^verbatim>\<open>os.path.dirname\<close> is the empty
  string, \<^verbatim>\<open>os.makedirs\<close> raises on it, and nothing is written: the tetrahedron
  with output \<^verbatim>\<open>tetra_convex.stl\<close> ends in \<open>FileNotFoundError\<close>. The batch meets the
  same case when the output directory is the working directory: the run over \<^verbatim>\<open>in\<close>
  into \<^verbatim>\<open>.\<close> skips \<^verbatim>\<open>flat.stl\<close> and is ended by the exception at
  \<^verbatim>\<open>square.STL\<close>.
\<close>

theorem bare_output_name_raises:
  "dirname ''tetra_convex.stl'' = []
   \<and> os_makedirs (dirname ''tetra_convex.stl'')
        (print demo_world (msg_loaded ''in/tetra.stl'' (length tetra_mesh)))
        = Inl FileNotFoundError
   \<and> generate_convex_stl hull_tetra demo_world ''in/tetra.stl'' ''tetra_convex.stl''
        = Inl FileNotFoundError
   \<and> batch_convex_hull_generation hull_tetra demo_world ''in'' (Some ''.'') ''_convex''
        = Inl FileNotFoundError"
proof -
  have d: "dirname ''tetra_convex.stl'' = []"
    by (simp add: dirname_def is_sep_def)
  have g: "generate_convex_stl hull_tetra demo_world ''in/tetra.stl'' ''tetra_convex.stl''
             = Inl FileNotFoundError"
    by (simp add: run_defs mesh_defs hull_tetra_def demo_world_def)
  have b: "batch_convex_hull_generation hull_tetra demo_world ''in'' (Some ''.'') ''_convex''
             = Inl FileNotFoundError"
    by (simp add: run_defs mesh_defs hull_tetra_def demo_world_def)
  from d g b show ?thesis
    by (simp add: os_makedirs_empty)
qed

subsection \<open>What the function takes from the mesh\<close>

lemma generate_from_point_cloud:
  assumes "Mesh_from_file w inp = Inr vectors"
  shows "generate_convex_stl H w inp out =
           from_point_cloud H (print w (msg_loaded inp (length vectors))) inp out
             (np_unique (reshape_points vectors))"
  using assms os_path_isfile_from_file [OF assms]
  by (simp add: generate_convex_stl_def from_point_cloud_def Let_def)

text \<open>
  C10 as stated fails: the triangle with a NaN corner, given once and given twice, has
  the same set of corners, but the row with the NaN is kept once for each time it occurs.
  The first mesh has three rows and is skipped, the second has four and reaches the hull
  library.
\<close>

theorem nan_rows_counterexample:
  "set (reshape_points nan_twice) = set (reshape_points nan_once)
   \<and> np_unique (reshape_points nan_once) = [pt 0 0 0, pt 1 0 0, (NaN, Num 0, Num 0)]
   \<and> np_unique (reshape_points nan_twice)
       = [pt 0 0 0, pt 1 0 0, (NaN, Num 0, Num 0), (NaN, Num 0, Num 0)]
   \<and> \<not> distinct (np_unique (reshape_points nan_twice))
   \<and> generate_convex_stl hull_nan (nan_world nan_once) ''nan.stl'' ''out/nan.stl''
       = Inr (nan_world nan_once\<lparr>stdout :=
               [''[INFO] Loaded nan.stl with 1 triangles.'',
                ''[WARN] Not enough vertices to form a 3D convex hull: nan.stl'']\<rparr>)
   \<and> generate_convex_stl hull_nan (nan_world nan_twice) ''nan.stl'' ''out/nan.stl''
       = Inr (nan_world nan_twice\<lparr>stdout :=
               [''[INFO] Loaded nan.stl with 2 triangles.'',
                ''[ERROR] Failed to compute convex hull for nan.stl: Points cannot contain NaN'']\<rparr>)"
proof -
  have a: "set (reshape_points nan_twice) = set (reshape_points nan_once)"
    by (auto simp: reshape_points_def tri_points_def nan_once_def nan_twice_def)
  have b: "np_unique (reshape_points nan_once) = [pt 0 0 0, pt 1 0 0, (NaN, Num 0, Num 0)]"
    by (simp add: run_defs nan_once_def)
  have c: "np_unique (reshape_points nan_twice)
             = [pt 0 0 0, pt 1 0 0, (NaN, Num 0, Num 0), (NaN, Num 0, Num 0)]"
    by (simp add: run_defs nan_twice_def)
  have d: "\<not> distinct (np_unique (reshape_points nan_twice))"
    unfolding c by simp
  have e: "generate_convex_stl hull_nan (nan_world nan_once) ''nan.stl'' ''out/nan.stl''
       = Inr (nan_world nan_once\<lparr>stdout :=
               [''[INFO] Loaded nan.stl with 1 triangles.'',
                ''[WARN] Not enough vertices to form a 3D convex hull: nan.stl'']\<rparr>)"
    by (simp add: run_defs nan_once_def nan_world_def hull_nan_def)
  have f: "generate_convex_stl hull_nan (nan_world nan_twice) ''nan.stl'' ''out/nan.stl''
       = Inr (nan_world nan_twice\<lparr>stdout :=
               [''[INFO] Loaded nan.stl with 2 triangles.'',
                ''[ERROR] Failed to compute convex hull for nan.stl: Points cannot contain NaN'']\<rparr>)"
    by (simp add: run_defs nan_twice_def nan_world_def hull_nan_def)
  from a b c d e f show ?thesis by blast
qed

text \<open>
  C10, amended. The point cloud the function computes from a loaded mesh is sorted
  lexicographically (NaN last) and holds exactly the corners of the mesh's triangles, and
  the rest of the function is a function of it. For a mesh without NaN the point cloud
  has no row twice and is the same as that of every mesh with the same set of corners,
  however its triangles are ordered or repeated; the function then does what it would do
  with the point cloud of that other mesh.
\<close>

theorem point_cloud_sorted_canonical:
  fixes ConvexHull :: "('a::linorder) float32 hull"
  assumes "Mesh_from_file w input_stl_path = Inr vectors"
  shows "sorted (np_unique (reshape_points vectors))
    \<and> set (np_unique (reshape_points vectors)) = set (reshape_points vectors)
    \<and> generate_convex_stl ConvexHull w input_stl_path output_stl_path
        = from_point_cloud ConvexHull (print w (msg_loaded input_stl_path (length vectors)))
            input_stl_path output_stl_path (np_unique (reshape_points vectors))
    \<and> (nan_free vectors \<longrightarrow> distinct (np_unique (reshape_points vectors)))
    \<and> (nan_free vectors \<and> set (reshape_points vectors) = set (reshape_points vectors')
         \<longrightarrow> np_unique (reshape_points vectors) = np_unique (reshape_points vectors')
           \<and> generate_convex_stl ConvexHull w input_stl_path output_stl_path
               = from_point_cloud ConvexHull
                   (print w (msg_loaded input_stl_path (length vectors)))
                   input_stl_path output_stl_path (np_unique (reshape_points vectors')))"
proof -
  note g = generate_from_point_cloud [where H = ConvexHull, OF assms, of output_stl_path]
  have d: "distinct (np_unique (reshape_points vectors))" if "nan_free vectors"
    using that by (simp add: nan_free_def distinct_np_unique)
  have e: "np_unique (reshape_points vectors) = np_unique (reshape_points vectors')"
    if "nan_free vectors" and "set (reshape_points vectors) = set (reshape_points vectors')"
    using that by (simp add: nan_free_def np_unique_cong_set)
  from g d e show ?thesis
    by (auto simp: sorted_np_unique set_np_unique)
qed

theorem point_cloud_sorted_canonical_witness:
  "Mesh_from_file demo_world ''in/tetra.stl'' = Inr tetra_mesh
   \<and> nan_free tetra_mesh
   \<and> set (reshape_points tetra_mesh) = set (reshape_points tetra_shuffled)
   \<and> tetra_mesh \<noteq> tetra_shuffled
   \<and> np_unique (reshape_points tetra_mesh) = np_unique (reshape_points tetra_shuffled)
   \<and> np_unique (reshape_points tetra_shuffled) = [pt 0 0 0, pt 0 0 1, pt 0 1 0, pt 1 0 0]
   \<and> sorted (np_unique (reshape_points tetra_mesh))
   \<and> distinct (np_unique (reshape_points tetra_mesh))
   \<and> from_point_cloud hull_tetra
        (print demo_world (msg_loaded ''in/tetra.stl'' (length tetra_mesh)))
        ''in/tetra.stl'' ''out/tetra_convex.stl'' (np_unique (reshape_points tetra_shuffled))
       = Inr demo_world_after"
proof -
  have n: "nan_free tetra_mesh"
    by (simp add: nan_free_def has_nan_def reshape_points_def tri_points_def tetra_mesh_def
        pt_def)
  have s: "set (reshape_points tetra_mesh) = set (reshape_points tetra_shuffled)"
    by (auto simp: reshape_points_def tri_points_def tetra_mesh_def tetra_shuffled_def)
  have d: "tetra_mesh \<noteq> tetra_shuffled"
    by (simp add: tetra_mesh_def tetra_shuffled_def)
  have u: "np_unique (reshape_points tetra_shuffled) = [pt 0 0 0, pt 0 0 1, pt 0 1 0, pt 1 0 0]"
    by (simp add: run_defs mesh_defs)
  note t = point_cloud_sorted_canonical
    [where ConvexHull = hull_tetra and output_stl_path = "''out/tetra_convex.stl''"
       and vectors' = tetra_shuffled, OF demo_from_file_tetra]
  from t n s have
    "np_unique (reshape_points tetra_mesh) = np_unique (reshape_points tetra_shuffled)"
    and "sorted (np_unique (reshape_points tetra_mesh))"
    and "distinct (np_unique (reshape_points tetra_mesh))"
    and "generate_convex_stl hull_tetra demo_world ''in/tetra.stl'' ''out/tetra_convex.stl''
           = from_point_cloud hull_tetra
               (print demo_world (msg_loaded ''in/tetra.stl'' (length tetra_mesh)))
               ''in/tetra.stl'' ''out/tetra_convex.stl''
               (np_unique (reshape_points tetra_shuffled))"
    by blast+
  with demo_from_file_tetra n s d u demo_generate_tetra show ?thesis
    by simp
qed

subsection \<open>Input files and output paths\<close>

text \<open>
  C7 as stated fails: nothing restricts the suffix. With the empty suffix and no output
  directory the output path of \<^verbatim>\<open>in/part.stl\<close> is \<^verbatim>\<open>in/part.stl\<close>, and the batch
  replaces the three triangles of the input file by the four of the hull.
\<close>

theorem input_overwritten_counterexample:
  "out_path (Path ''in'') [] (Path ''in/part.stl'') = Path ''in/part.stl''
   \<and> Path_str (out_path (Path ''in'') [] (Path ''in/part.stl'')) = ''in/part.stl''
   \<and> Mesh_from_file part_world ''in/part.stl'' = Inr tetra_shuffled
   \<and> batch_convex_hull_generation hull_demo part_world ''in'' None [] = Inr part_world_overwritten
   \<and> Mesh_from_file part_world_overwritten ''in/part.stl'' = Inr tetra_hull_mesh
   \<and> length tetra_shuffled = 3 \<and> length tetra_hull_mesh = 4"
proof -
  have a: "out_path (Path ''in'') [] (Path ''in/part.stl'') = Path ''in/part.stl''"
    by (simp add: path_string_defs)
  have b: "Path_str (out_path (Path ''in'') [] (Path ''in/part.stl'')) = ''in/part.stl''"
    by (simp add: path_string_defs)
  have c: "Mesh_from_file part_world ''in/part.stl'' = Inr tetra_shuffled"
    by (simp add: run_defs part_world_def)
  have d: "batch_convex_hull_generation hull_demo part_world ''in'' None []
             = Inr part_world_overwritten"
    by (simp add: run_defs mesh_defs hull_demo_def part_world_def part_world_overwritten_def)
  have e: "Mesh_from_file part_world_overwritten ''in/part.stl'' = Inr tetra_hull_mesh"
    by (simp add: run_defs part_world_overwritten_def)
  have f: "length tetra_shuffled = 3 \<and> length tetra_hull_mesh = 4"
    by (simp add: mesh_defs)
  from a b c d e f show ?thesis by blast
qed

text \<open>
  C7, amended. In a filesystem that is a tree, let the suffix contain no separator, let
  the output directory have been created and the input directory listed, and take a file
  the scanner selected. If no
  selected file has the name of that file as its output name, or the output directory is
  not the input directory, then the file is as it was at the listing after every number
  of files the loop has processed and when the batch returns, and the output path
  computed for the file resolves to another node than the file. For the file itself the
  output name differs from its name whenever the suffix is not empty.
\<close>

theorem input_file_not_overwritten:
  fixes ConvexHull :: "('a::linorder) float32 hull"
  assumes wf: "wf_world w"
      and sfx: "CHR ''/'' \<notin> set sfx"
      and od: "output_dir = (case output_directory of None \<Rightarrow> Path input_directory
                                                    | Some d \<Rightarrow> Path d)"
      and mk: "Path_mkdir output_dir w = Inr w1"
      and it: "Path_iterdir w1 (Path input_directory) = Inr entries"
      and p: "in_path \<in> set (stl_files entries)"
      and safe: "(\<forall>q \<in> set (stl_files entries). out_name q sfx \<noteq> Path_name in_path)
                 \<or> os_lookup w1 (Path_str output_dir)
                     \<noteq> os_lookup w1 (Path_str (Path input_directory))"
  shows "\<exists>ki. os_lookup w1 (Path_str in_path) = Inr ki \<and> node_at w1 ki \<noteq> None
     \<and> (\<forall>n w'. process_files ConvexHull output_dir sfx (take n (stl_files entries))
                  (print w1 (msg_found (length (stl_files entries))
                     (Path_str (Path input_directory)))) = Inr w'
           \<longrightarrow> node_at w' ki = node_at w1 ki
             \<and> os_lookup w' (Path_str in_path) = Inr ki
             \<and> os_lookup w' (Path_str (out_path output_dir sfx in_path)) \<noteq> Inr ki)
     \<and> (\<forall>w'. batch_convex_hull_generation ConvexHull w input_directory output_directory sfx
                = Inr w'
           \<longrightarrow> node_at w' ki = node_at w1 ki
             \<and> os_lookup w' (Path_str in_path) = Inr ki
             \<and> os_lookup w' (Path_str (out_path output_dir sfx in_path)) \<noteq> Inr ki)
     \<and> (sfx \<noteq> [] \<longrightarrow> out_name in_path sfx \<noteq> Path_name in_path)"
proof -
  let ?pd = "Path input_directory"
  let ?files = "stl_files entries"
  let ?w0 = "print w1 (msg_found (length ?files) (Path_str ?pd))"
  have pd: "wf_path ?pd" by (rule wf_Path)
  have odwf: "wf_path output_dir"
    unfolding od by (simp add: wf_Path split: option.splits)
  from os_makedirs_isdir [of "Path_str output_dir" w w1] mk wf
  have wf1: "wf_world w1" and odd: "os_path_isdir w1 (Path_str output_dir)"
    by (simp_all add: Path_mkdir_def)
  from odd obtain kod where
    kod: "os_lookup w1 (Path_str output_dir) = Inr kod" and
    kodd: "is_dir_node (node_at w1 kod)"
    by (auto simp: os_path_isdir_def split: sum.splits)
  have mem: "q \<in> set entries" if "q \<in> set ?files" for q
    using that by (simp add: set_stl_files)
  from p have stl: "is_stl in_path"
    by (simp add: set_stl_files is_stl_def)
  from listed_entry [OF it wf1 pd mem [OF p]] obtain kd n where
    kd: "os_lookup w1 (Path_str ?pd) = Inr kd" and
    pn: "Path_name in_path = n" and wfp: "wf_path in_path" and
    ki: "os_lookup w1 (Path_str in_path) = Inr (kd @ [n])" and
    ex: "node_at w1 (kd @ [n]) \<noteq> None" and
    pp: "in_path = ?pd\<lparr>parts := parts ?pd @ [n]\<rparr>"
    by blast
  from pp have pne: "parts in_path \<noteq> []"
    by (cases "parts ?pd") (simp_all add: pp)
  from not_must_be_dir_Path_str [OF wfp pne] have nmd: "\<not> must_be_dir (Path_str in_path)" .
  have outq: "os_lookup w' (Path_str (out_path output_dir sfx q)) = Inr (kod @ [out_name q sfx])"
    if q: "q \<in> set ?files"
      and dirs: "\<And>k. is_dir_node (node_at w1 k) \<Longrightarrow> is_dir_node (node_at w' k)"
      and c: "cwd w' = cwd w1" for q w'
  proof -
    from listed_entry [OF it wf1 pd mem [OF q]] obtain m where
      "name_ok m" and "Path_name q = m"
      by blast
    then have ns: "CHR ''/'' \<notin> set (Path_name q)"
      by (simp add: name_ok_def part_ok_def)
    from out_path_single [OF ns sfx]
    have op: "out_path output_dir sfx q
                = output_dir\<lparr>parts := parts output_dir @ [out_name q sfx]\<rparr>"
      by (simp add: out_name_def)
    from dirs [OF kodd] have d': "is_dir_node (node_at w' kod)" .
    then have nf: "\<not> is_file_node (node_at w' kod)"
      by (auto simp: is_dir_node_def is_file_node_def split: option.splits node.splits)
    have "os_lookup w' (Path_str output_dir) = Inr kod"
      by (rule os_lookup_mono [OF kod dirs c]) (simp_all add: nf)
    from os_lookup_child [OF odwf out_name_ok [OF ns sfx] out_name_not_dotdot this d']
    show ?thesis by (simp add: op)
  qed
  have differ: "kod @ [out_name q sfx] \<noteq> kd @ [n]" if "q \<in> set ?files" for q
    using safe that kod kd pn by auto
  have main: "node_at w' (kd @ [n]) = node_at w1 (kd @ [n])
      \<and> os_lookup w' (Path_str in_path) = Inr (kd @ [n])
      \<and> os_lookup w' (Path_str (out_path output_dir sfx in_path)) \<noteq> Inr (kd @ [n])"
    if run: "process_files ConvexHull output_dir sfx fl ?w0 = Inr w'"
      and sub: "set fl \<subseteq> set ?files" for fl w'
  proof -
    from process_files_frame [OF run] have c: "cwd w' = cwd w1" and
      fr: "\<And>k. node_at w' k = node_at w1 k
            \<or> (node_at w1 k = None \<and> node_at w' k = Some (Dir True))
            \<or> (\<not> is_dir_node (node_at w1 k)
               \<and> (\<exists>q \<in> set fl. os_lookup w' (Path_str (out_path output_dir sfx q)) = Inr k)
               \<and> (\<exists>m. node_at w' k = Some (StlFile m)))"
      by auto
    have dirs: "is_dir_node (node_at w' k)" if "is_dir_node (node_at w1 k)" for k
      using fr [of k] that by (auto simp: is_dir_node_def)
    have nw: "os_lookup w' (Path_str (out_path output_dir sfx q)) \<noteq> Inr (kd @ [n])"
      if "q \<in> set ?files" for q
      using outq [OF that dirs c] differ [OF that] by simp
    with sub have "\<not> (\<exists>q \<in> set fl.
        os_lookup w' (Path_str (out_path output_dir sfx q)) = Inr (kd @ [n]))"
      by blast
    with fr [of "kd @ [n]"] ex have same: "node_at w' (kd @ [n]) = node_at w1 (kd @ [n])"
      by blast
    have "os_lookup w' (Path_str in_path) = Inr (kd @ [n])"
      by (rule os_lookup_mono [OF ki dirs c]) (simp_all add: nmd)
    with same nw [OF p] show ?thesis by simp
  qed
  have pre: "node_at w' (kd @ [n]) = node_at w1 (kd @ [n])
      \<and> os_lookup w' (Path_str in_path) = Inr (kd @ [n])
      \<and> os_lookup w' (Path_str (out_path output_dir sfx in_path)) \<noteq> Inr (kd @ [n])"
    if "process_files ConvexHull output_dir sfx (take m ?files) ?w0 = Inr w'" for m w'
    using main [OF that] by (simp add: set_take_subset)
  from p have ne: "?files \<noteq> []" by auto
  have bu: "batch_convex_hull_generation ConvexHull w input_directory output_directory sfx
              = process_files ConvexHull output_dir sfx ?files ?w0"
    using mk it ne unfolding od by (simp add: batch_unfold)
  have all: "node_at w' (kd @ [n]) = node_at w1 (kd @ [n])
      \<and> os_lookup w' (Path_str in_path) = Inr (kd @ [n])
      \<and> os_lookup w' (Path_str (out_path output_dir sfx in_path)) \<noteq> Inr (kd @ [n])"
    if "batch_convex_hull_generation ConvexHull w input_directory output_directory sfx = Inr w'"
    for w'
    using main [of ?files w'] that bu by simp
  have len: "out_name in_path sfx \<noteq> Path_name in_path" if "sfx \<noteq> []"
  proof
    assume "out_name in_path sfx = Path_name in_path"
    then have "length (out_name in_path sfx) = length (Path_stem in_path @ Path_suffix in_path)"
      by (simp add: stem_suffix_name)
    with is_stl_suffix_length [OF stl] that show False
      by (simp add: out_name_def)
  qed
  from ki ex pre all len show ?thesis by blast
qed

lemma wf_demo_world: "wf_world demo_world"
  by (simp add: wf_world_def node_ok_def name_ok_def part_ok_def node_at_def is_dir_node_def
      demo_world_def)

lemma demo_mkdir_out: "Path_mkdir (Path ''out'') demo_world = Inr demo_world_out"
  by (simp add: run_defs demo_world_def demo_world_out_def)

lemma demo_iterdir_in: "Path_iterdir demo_world_out (Path ''in'') = Inr demo_entries"
  by (simp add: run_defs demo_world_def demo_world_out_def demo_entries_def)

lemma demo_stl_files:
  "stl_files demo_entries =
     [\<lparr>root = [], parts = [''in'', ''flat.stl'']\<rparr>,
      \<lparr>root = [], parts = [''in'', ''square.STL'']\<rparr>,
      \<lparr>root = [], parts = [''in'', ''tetra.stl'']\<rparr>]"
  by (simp add: stl_files_def path_string_defs demo_entries_def)

lemma demo_batch_out:
  "batch_convex_hull_generation hull_demo demo_world ''in'' (Some ''out'') default_suffix
     = Inr demo_batch_after"
  by (simp add: run_defs mesh_defs hull_demo_def default_suffix_def demo_world_def
      demo_batch_after_def)

theorem input_file_not_overwritten_witness:
  "wf_world demo_world
   \<and> Path_mkdir (Path ''out'') demo_world = Inr demo_world_out
   \<and> Path_iterdir demo_world_out (Path ''in'') = Inr demo_entries
   \<and> Path ''in/tetra.stl'' \<in> set (stl_files demo_entries)
   \<and> os_lookup demo_world_out (Path_str (Path ''out''))
       \<noteq> os_lookup demo_world_out (Path_str (Path ''in''))
   \<and> batch_convex_hull_generation hull_demo demo_world ''in'' (Some ''out'') default_suffix
       = Inr demo_batch_after
   \<and> node_at demo_batch_after [''work'', ''in'', ''tetra.stl''] = Some (StlFile tetra_mesh)
   \<and> os_lookup demo_batch_after
         (Path_str (out_path (Path ''out'') default_suffix (Path ''in/tetra.stl'')))
       \<noteq> Inr [''work'', ''in'', ''tetra.stl'']"
proof -
  have sfx: "CHR ''/'' \<notin> set default_suffix"
    by (simp add: default_suffix_def)
  have od: "Path ''out'' = (case Some ''out'' of None \<Rightarrow> Path ''in'' | Some d \<Rightarrow> Path d)"
    by simp
  have p: "Path ''in/tetra.stl'' \<in> set (stl_files demo_entries)"
    by (simp add: demo_stl_files path_string_defs)
  have ne: "os_lookup demo_world_out (Path_str (Path ''out''))
              \<noteq> os_lookup demo_world_out (Path_str (Path ''in''))"
    by (simp add: run_defs demo_world_def demo_world_out_def)
  then have safe: "(\<forall>q \<in> set (stl_files demo_entries).
                       out_name q default_suffix \<noteq> Path_name (Path ''in/tetra.stl''))
                   \<or> os_lookup demo_world_out (Path_str (Path ''out''))
                       \<noteq> os_lookup demo_world_out (Path_str (Path ''in''))"
    by simp
  from input_file_not_overwritten
    [where ConvexHull = hull_demo and output_directory = "Some ''out''",
      OF wf_demo_world sfx od demo_mkdir_out demo_iterdir_in p safe]
  obtain ki where
    ki: "os_lookup demo_world_out (Path_str (Path ''in/tetra.stl'')) = Inr ki" and
    b: "\<forall>w'. batch_convex_hull_generation hull_demo demo_world ''in'' (Some ''out'')
                default_suffix = Inr w'
          \<longrightarrow> node_at w' ki = node_at demo_world_out ki
            \<and> os_lookup w' (Path_str (Path ''in/tetra.stl'')) = Inr ki
            \<and> os_lookup w' (Path_str (out_path (Path ''out'') default_suffix
                 (Path ''in/tetra.stl''))) \<noteq> Inr ki"
    by blast
  have "os_lookup demo_world_out (Path_str (Path ''in/tetra.stl''))
          = Inr [''work'', ''in'', ''tetra.stl'']"
    by (simp add: run_defs demo_world_def demo_world_out_def)
  with ki have kv: "ki = [''work'', ''in'', ''tetra.stl'']"
    by simp
  have nd: "node_at demo_world_out [''work'', ''in'', ''tetra.stl''] = Some (StlFile tetra_mesh)"
    by (simp add: node_at_def demo_world_def demo_world_out_def)
  from b demo_batch_out have
    "node_at demo_batch_after ki = node_at demo_world_out ki
     \<and> os_lookup demo_batch_after (Path_str (out_path (Path ''out'') default_suffix
          (Path ''in/tetra.stl''))) \<noteq> Inr ki"
    by blast
  with kv nd have
    "node_at demo_batch_after [''work'', ''in'', ''tetra.stl''] = Some (StlFile tetra_mesh)
     \<and> os_lookup demo_batch_after (Path_str (out_path (Path ''out'') default_suffix
          (Path ''in/tetra.stl''))) \<noteq> Inr [''work'', ''in'', ''tetra.stl'']"
    by simp
  with wf_demo_world demo_mkdir_out demo_iterdir_in p ne demo_batch_out show ?thesis
    by blast
qed

subsection \<open>Output names\<close>





subsection \<open>The scanner\<close>

lemma Path_iterdir_inj:
  assumes "Path_iterdir w p = Inr entries"
  shows "inj_on cparts (set entries)"
proof -
  from assms obtain names where e: "entries = map (\<lambda>n. p\<lparr>parts := parts p @ [n]\<rparr>) names"
    by (auto simp: Path_iterdir_def split: sum.splits)
  show ?thesis
    unfolding e by (rule inj_onI) (auto simp: cparts_def split: if_splits)
qed

lemma stl_files_permuted:
  assumes "inj_on cparts (set entries)" and "mset entries' = mset entries"
  shows "stl_files entries' = stl_files entries"
proof -
  from assms(2) have s: "set entries' = set entries"
    by (rule mset_eq_setD)
  have "sort_key cparts (filter is_stl entries') = stl_files entries"
  proof (rule sort_key_inj_key_eq)
    show "mset (filter is_stl entries') = mset (stl_files entries)"
      by (simp add: mset_stl_files assms(2))
    show "inj_on cparts (set (filter is_stl entries'))"
      by (rule inj_on_subset [OF assms(1)]) (auto simp: s)
    show "sorted (map cparts (stl_files entries))"
      by (rule sorted_stl_files)
  qed
  then show ?thesis by (simp add: stl_files_def)
qed

text \<open>An existing directory is still there, and listed as before, after directories have been created.\<close>

lemma os_makedirs_keeps_listable:
  assumes mk: "os_makedirs nm w = Inr w1"
      and l: "os_lookup w s = Inr kd" and n: "node_at w kd = Some (Dir b)"
  shows "os_lookup w1 s = Inr kd \<and> node_at w1 kd = Some (Dir b)"
proof -
  from os_makedirs_Inr [OF mk] have c: "cwd w1 = cwd w" and
    fr: "\<And>k. node_at w1 k = node_at w k \<or> (node_at w k = None \<and> node_at w1 k = Some (Dir True))"
    by auto
  from fr [of kd] n have n1: "node_at w1 kd = Some (Dir b)" by auto
  then have nf: "\<not> is_file_node (node_at w1 kd)"
    by (simp add: is_file_node_def)
  have "os_lookup w1 s = Inr kd"
    by (rule os_lookup_mono [OF l os_makedirs_keeps_dirs [OF mk] c]) (simp_all add: nf)
  with n1 show ?thesis by simp
qed

text \<open>
  C5 as stated fails: the output directory is created before the input directory is
  listed, and the listing can be refused. The directory \<^verbatim>\<open>docs\<close> exists and has no
  entry with the extension, yet with the output directory \<^verbatim>\<open>docs/notes.txt\<close> the batch
  raises \<open>FileExistsError\<close>; the directory \<^verbatim>\<open>vault\<close> exists, and the batch raises
  \<open>PermissionError\<close>.
\<close>

theorem existing_directory_raises_counterexample:
  "os_path_isdir docs_world ''docs''
   \<and> Path_iterdir docs_world (Path ''docs'') = Inr [\<lparr>root = [], parts = [''docs'', ''notes.txt'']\<rparr>]
   \<and> stl_files [\<lparr>root = [], parts = [''docs'', ''notes.txt'']\<rparr>] = []
   \<and> batch_convex_hull_generation hull_demo docs_world ''docs'' (Some ''docs/notes.txt'')
        default_suffix = Inl FileExistsError
   \<and> os_path_isdir docs_world ''vault''
   \<and> batch_convex_hull_generation hull_demo docs_world ''vault'' None default_suffix
       = Inl PermissionError"
proof -
  have a: "os_path_isdir docs_world ''docs''"
    by (simp add: run_defs docs_world_def)
  have b: "Path_iterdir docs_world (Path ''docs'')
             = Inr [\<lparr>root = [], parts = [''docs'', ''notes.txt'']\<rparr>]"
    by (simp add: run_defs docs_world_def)
  have c: "stl_files [\<lparr>root = [], parts = [''docs'', ''notes.txt'']\<rparr>] = []"
    by (simp add: stl_files_def path_string_defs)
  have d: "batch_convex_hull_generation hull_demo docs_world ''docs'' (Some ''docs/notes.txt'')
             default_suffix = Inl FileExistsError"
    by (simp add: run_defs docs_world_def default_suffix_def)
  have e: "os_path_isdir docs_world ''vault''"
    by (simp add: run_defs docs_world_def)
  have f: "batch_convex_hull_generation hull_demo docs_world ''vault'' None default_suffix
             = Inl PermissionError"
    by (simp add: run_defs docs_world_def default_suffix_def)
  from a b c d e f show ?thesis by blast
qed

text \<open>
  C5, amended. Let the input directory exist and be listable, and let the output
  directory have been created; when no output directory is given this is the input
  directory and creating it changes nothing. Then the listing succeeds, and the list the
  scanner hands to the loop holds exactly the listed entries whose extension is
  \<^verbatim>\<open>.stl\<close> up to case, each as often as it is listed, sorted by path, whatever the
  order of the listing. If the list is empty the batch returns normally with the warning
  printed, and the only nodes that are not as before the batch are directories created
  for the output directory; otherwise the batch is the loop over that list.
\<close>

theorem scanner_lists_stl_entries_sorted:
  fixes ConvexHull :: "('a::linorder) float32 hull"
  assumes ex: "os_lookup w (Path_str (Path input_directory)) = Inr kd"
      and ls: "node_at w kd = Some (Dir True)"
      and od: "output_dir = (case output_directory of None \<Rightarrow> Path input_directory
                                                    | Some d \<Rightarrow> Path d)"
      and mk: "Path_mkdir output_dir w = Inr w1"
  shows "(\<exists>entries. Path_iterdir w1 (Path input_directory) = Inr entries)
     \<and> (\<forall>entries. Path_iterdir w1 (Path input_directory) = Inr entries \<longrightarrow>
          set (stl_files entries) = {p \<in> set entries. str_lower (Path_suffix p) = ''.stl''}
          \<and> mset (stl_files entries)
              = filter_mset (\<lambda>p. str_lower (Path_suffix p) = ''.stl'') (mset entries)
          \<and> sorted (map cparts (stl_files entries))
          \<and> (\<forall>entries'. mset entries' = mset entries
                 \<longrightarrow> stl_files entries' = stl_files entries)
          \<and> (stl_files entries = [] \<longrightarrow>
               batch_convex_hull_generation ConvexHull w input_directory output_directory sfx
                 = Inr (print w1 (msg_no_stl (Path_str (Path input_directory))))
               \<and> (\<forall>k. node_at w1 k = node_at w k
                      \<or> (node_at w k = None \<and> node_at w1 k = Some (Dir True))))
          \<and> (stl_files entries \<noteq> [] \<longrightarrow>
               batch_convex_hull_generation ConvexHull w input_directory output_directory sfx
                 = process_files ConvexHull output_dir sfx (stl_files entries)
                     (print w1 (msg_found (length (stl_files entries))
                        (Path_str (Path input_directory))))))
     \<and> Path_mkdir (Path input_directory) w = Inr w
     \<and> (output_directory = None \<longrightarrow> w1 = w)"
proof -
  let ?pd = "Path input_directory"
  let ?entries = "map (\<lambda>n. ?pd\<lparr>parts := parts ?pd @ [n]\<rparr>) (entry_names kd (fs w1))"
  from mk have mk': "os_makedirs (Path_str output_dir) w = Inr w1"
    by (simp add: Path_mkdir_def)
  from os_makedirs_keeps_listable [OF mk' ex ls] have
    l1: "os_lookup w1 (Path_str ?pd) = Inr kd" and n1: "node_at w1 kd = Some (Dir True)"
    by simp_all
  then have it: "Path_iterdir w1 ?pd = Inr ?entries"
    by (simp add: Path_iterdir_def os_listdir_def)
  have s: "set (stl_files ?entries) = {p \<in> set ?entries. str_lower (Path_suffix p) = ''.stl''}"
    by (rule set_stl_files)
  have m: "mset (stl_files ?entries)
             = filter_mset (\<lambda>p. str_lower (Path_suffix p) = ''.stl'') (mset ?entries)"
    by (simp add: stl_files_def is_stl_def [abs_def])
  have so: "sorted (map cparts (stl_files ?entries))"
    by (rule sorted_stl_files)
  have pe: "stl_files entries' = stl_files ?entries" if "mset entries' = mset ?entries"
    for entries'
    by (rule stl_files_permuted [OF Path_iterdir_inj [OF it] that])
  have emp: "batch_convex_hull_generation ConvexHull w input_directory output_directory sfx
            = Inr (print w1 (msg_no_stl (Path_str ?pd)))" if "stl_files ?entries = []"
    using mk it that unfolding od by (simp add: batch_unfold)
  from os_makedirs_Inr [OF mk'] have
    fr: "\<forall>k. node_at w1 k = node_at w k \<or> (node_at w k = None \<and> node_at w1 k = Some (Dir True))"
    by blast
  have non: "batch_convex_hull_generation ConvexHull w input_directory output_directory sfx
            = process_files ConvexHull output_dir sfx (stl_files ?entries)
                (print w1 (msg_found (length (stl_files ?entries)) (Path_str ?pd)))"
    if "stl_files ?entries \<noteq> []"
    using mk it that unfolding od by (simp add: batch_unfold)
  from ex ls have "os_path_isdir w (Path_str ?pd)"
    by (simp add: os_path_isdir_def is_dir_node_def)
  then have same: "Path_mkdir ?pd w = Inr w"
    by (simp add: Path_mkdir_def os_makedirs_existing)
  have none: "w1 = w" if "output_directory = None"
    using that mk same by (simp add: od)
  have props:
    "set (stl_files entries) = {p \<in> set entries. str_lower (Path_suffix p) = ''.stl''}
     \<and> mset (stl_files entries)
         = filter_mset (\<lambda>p. str_lower (Path_suffix p) = ''.stl'') (mset entries)
     \<and> sorted (map cparts (stl_files entries))
     \<and> (\<forall>entries'. mset entries' = mset entries
            \<longrightarrow> stl_files entries' = stl_files entries)
     \<and> (stl_files entries = [] \<longrightarrow>
          batch_convex_hull_generation ConvexHull w input_directory output_directory sfx
            = Inr (print w1 (msg_no_stl (Path_str (Path input_directory))))
          \<and> (\<forall>k. node_at w1 k = node_at w k
                 \<or> (node_at w k = None \<and> node_at w1 k = Some (Dir True))))
     \<and> (stl_files entries \<noteq> [] \<longrightarrow>
          batch_convex_hull_generation ConvexHull w input_directory output_directory sfx
            = process_files ConvexHull output_dir sfx (stl_files entries)
                (print w1 (msg_found (length (stl_files entries))
                   (Path_str (Path input_directory)))))"
    if "Path_iterdir w1 ?pd = Inr entries" for entries
  proof -
    from that it have e: "entries = ?entries" by simp
    from s m so pe emp fr non show ?thesis unfolding e by blast
  qed
  from it have "\<exists>entries. Path_iterdir w1 ?pd = Inr entries" by blast
  with props same none show ?thesis by blast
qed

theorem scanner_lists_stl_entries_sorted_witness:
  "os_lookup docs_world (Path_str (Path ''docs'')) = Inr [''work'', ''docs'']
   \<and> node_at docs_world [''work'', ''docs''] = Some (Dir True)
   \<and> Path_mkdir (Path ''docs'') docs_world = Inr docs_world
   \<and> Path_iterdir docs_world (Path ''docs'')
       = Inr [\<lparr>root = [], parts = [''docs'', ''notes.txt'']\<rparr>]
   \<and> batch_convex_hull_generation hull_demo docs_world ''docs'' None default_suffix
       = Inr (print docs_world (msg_no_stl (Path_str (Path ''docs''))))
   \<and> print docs_world (msg_no_stl (Path_str (Path ''docs'')))
       = docs_world\<lparr>stdout := [''[WARN] No STL files found in docs'']\<rparr>
   \<and> os_lookup demo_world (Path_str (Path ''in'')) = Inr [''work'', ''in'']
   \<and> node_at demo_world [''work'', ''in''] = Some (Dir True)
   \<and> Path_mkdir (Path ''out'') demo_world = Inr demo_world_out
   \<and> Path_iterdir demo_world_out (Path ''in'') = Inr demo_entries
   \<and> stl_files demo_entries =
       [\<lparr>root = [], parts = [''in'', ''flat.stl'']\<rparr>,
        \<lparr>root = [], parts = [''in'', ''square.STL'']\<rparr>,
        \<lparr>root = [], parts = [''in'', ''tetra.stl'']\<rparr>]
   \<and> sorted (map cparts (stl_files demo_entries))
   \<and> stl_files (rev demo_entries) = stl_files demo_entries
   \<and> batch_convex_hull_generation hull_demo demo_world ''in'' (Some ''out'') default_suffix
       = process_files hull_demo (Path ''out'') default_suffix (stl_files demo_entries)
           (print demo_world_out (msg_found (length (stl_files demo_entries))
              (Path_str (Path ''in''))))"
proof -
  have ex1: "os_lookup docs_world (Path_str (Path ''docs'')) = Inr [''work'', ''docs'']"
    by (simp add: run_defs docs_world_def)
  have ls1: "node_at docs_world [''work'', ''docs''] = Some (Dir True)"
    by (simp add: node_at_def docs_world_def)
  have od1: "Path ''docs'' = (case None of None \<Rightarrow> Path ''docs'' | Some d \<Rightarrow> Path d)"
    by simp
  have mk1: "Path_mkdir (Path ''docs'') docs_world = Inr docs_world"
    by (simp add: run_defs docs_world_def)
  have it1: "Path_iterdir docs_world (Path ''docs'')
               = Inr [\<lparr>root = [], parts = [''docs'', ''notes.txt'']\<rparr>]"
    by (simp add: run_defs docs_world_def)
  have e1: "stl_files [\<lparr>root = [], parts = [''docs'', ''notes.txt'']\<rparr>] = []"
    by (simp add: stl_files_def path_string_defs)
  note t1 = scanner_lists_stl_entries_sorted
    [where ConvexHull = hull_demo and output_directory = None and sfx = default_suffix,
      OF ex1 ls1 od1 mk1]
  note c1 = t1 [THEN conjunct2, THEN conjunct1, rule_format, OF it1]
  from c1 have "stl_files [\<lparr>root = [], parts = [''docs'', ''notes.txt'']\<rparr>] = [] \<longrightarrow>
      batch_convex_hull_generation hull_demo docs_world ''docs'' None default_suffix
        = Inr (print docs_world (msg_no_stl (Path_str (Path ''docs''))))
      \<and> (\<forall>k. node_at docs_world k = node_at docs_world k
             \<or> (node_at docs_world k = None \<and> node_at docs_world k = Some (Dir True)))"
    by (elim conjE)
  note r1 = this [THEN mp, OF e1, THEN conjunct1]
  have pr: "print docs_world (msg_no_stl (Path_str (Path ''docs'')))
              = docs_world\<lparr>stdout := [''[WARN] No STL files found in docs'']\<rparr>"
    by (simp add: print_def message_defs path_string_defs docs_world_def)
  have ex2: "os_lookup demo_world (Path_str (Path ''in'')) = Inr [''work'', ''in'']"
    by (simp add: run_defs demo_world_def)
  have ls2: "node_at demo_world [''work'', ''in''] = Some (Dir True)"
    by (simp add: node_at_def demo_world_def)
  have od2: "Path ''out'' = (case Some ''out'' of None \<Rightarrow> Path ''in'' | Some d \<Rightarrow> Path d)"
    by simp
  note t2 = scanner_lists_stl_entries_sorted
    [where ConvexHull = hull_demo and output_directory = "Some ''out''"
       and sfx = default_suffix, OF ex2 ls2 od2 demo_mkdir_out]
  note c2 = t2 [THEN conjunct2, THEN conjunct1, rule_format, OF demo_iterdir_in]
  from c2 have so: "sorted (map cparts (stl_files demo_entries))"
    by (elim conjE)
  from c2 have pe: "\<forall>entries'. mset entries' = mset demo_entries
                      \<longrightarrow> stl_files entries' = stl_files demo_entries"
    by (elim conjE)
  have "mset (rev demo_entries) = mset demo_entries"
    by simp
  note r2 = pe [rule_format, OF this]
  from c2 have non: "stl_files demo_entries \<noteq> [] \<longrightarrow>
      batch_convex_hull_generation hull_demo demo_world ''in'' (Some ''out'') default_suffix
        = process_files hull_demo (Path ''out'') default_suffix (stl_files demo_entries)
            (print demo_world_out (msg_found (length (stl_files demo_entries))
               (Path_str (Path ''in''))))"
    by (elim conjE)
  have ne: "stl_files demo_entries \<noteq> []"
    by (simp add: demo_stl_files)
  note r3 = non [THEN mp, OF ne]
  show ?thesis
    by (intro conjI)
      (rule ex1 ls1 mk1 it1 r1 pr ex2 ls2 demo_mkdir_out demo_iterdir_in demo_stl_files so r2 r3)+
qed

subsection \<open>Errors of the directories\<close>

lemma walk_error:
  "walk w cur cs = Inl e \<Longrightarrow> e = FileNotFoundError \<or> e = NotADirectoryError"
  by (induction cs arbitrary: cur) (auto split: if_splits option.splits node.splits)

lemma os_lookup_error:
  "os_lookup w s = Inl e \<Longrightarrow> e = FileNotFoundError \<or> e = NotADirectoryError"
  by (auto simp: os_lookup_def split: if_splits sum.splits dest: walk_error)

lemma os_listdir_not_dir:
  assumes "\<not> os_path_isdir w s"
  shows "\<exists>e. os_listdir w s = Inl e \<and> (e = FileNotFoundError \<or> e = NotADirectoryError)"
proof (cases "os_lookup w s")
  case (Inl e)
  with os_lookup_error [OF Inl] show ?thesis
    by (simp add: os_listdir_def)
next
  case (Inr k)
  with assms have "\<not> is_dir_node (node_at w k)"
    by (simp add: os_path_isdir_def)
  with Inr show ?thesis
    by (auto simp: os_listdir_def is_dir_node_def split: option.splits node.splits)
qed

lemma os_makedirs_keeps_node:
  assumes mk: "os_makedirs nm w = Inr w1"
      and l: "os_lookup w s = Inr k" and n: "node_at w k = Some nd"
  shows "os_lookup w1 s = Inr k \<and> node_at w1 k = Some nd"
proof -
  from os_makedirs_Inr [OF mk] have c: "cwd w1 = cwd w" and
    fr: "\<And>k. node_at w1 k = node_at w k \<or> (node_at w k = None \<and> node_at w1 k = Some (Dir True))"
    by auto
  from fr [of k] n have n1: "node_at w1 k = Some nd" by auto
  from l have "\<not> (must_be_dir s \<and> is_file_node (node_at w k))"
    by (auto simp: os_lookup_def split: if_splits sum.splits)
  with n n1 have nf: "must_be_dir s \<Longrightarrow> \<not> is_file_node (node_at w1 k)"
    by simp
  have "os_lookup w1 s = Inr k"
    by (rule os_lookup_mono [OF l os_makedirs_keeps_dirs [OF mk] c]) (simp_all add: nf)
  with n1 show ?thesis by simp
qed

text \<open>
  C8 as stated fails: the output directory is created before the input directory is
  listed, and without an output directory it is the input directory. The directory
  \<^verbatim>\<open>missing\<close> does not exist; the batch creates it, finds it empty, prints the warning
  and returns normally.
\<close>

theorem missing_input_directory_counterexample:
  "\<not> os_path_exists demo_world ''missing''
   \<and> batch_convex_hull_generation hull_demo demo_world ''missing'' None default_suffix
       = Inr demo_world_missing
   \<and> os_path_isdir demo_world_missing ''missing''"
proof -
  have a: "\<not> os_path_exists demo_world ''missing''"
    by (simp add: run_defs demo_world_def)
  have b: "batch_convex_hull_generation hull_demo demo_world ''missing'' None default_suffix
             = Inr demo_world_missing"
    by (simp add: run_defs demo_world_def demo_world_missing_def default_suffix_def)
  have c: "os_path_isdir demo_world_missing ''missing''"
    by (simp add: run_defs demo_world_def demo_world_missing_def)
  from a b c show ?thesis by blast
qed

text \<open>
  C8, amended. An error of creating the output directory ends the batch with that
  error, and so does an error of listing the input directory once the output directory
  has been created; nothing catches either. The listing raises \<open>FileNotFoundError\<close> or
  \<open>NotADirectoryError\<close> whenever the input directory is not a directory at that moment,
  as when it does not exist and the output directory exists already. An input directory
  that exists and may not be listed, or that is a file, ends the batch with an error
  whatever the output directory is: with the error of creating the output directory if
  there is one, else with \<open>PermissionError\<close> or \<open>NotADirectoryError\<close>.
\<close>

theorem input_directory_error_propagates:
  fixes ConvexHull :: "('a::linorder) float32 hull"
  assumes od: "output_dir = (case output_directory of None \<Rightarrow> Path input_directory
                                                    | Some d \<Rightarrow> Path d)"
  shows "(\<forall>e. Path_mkdir output_dir w = Inl e \<longrightarrow>
            batch_convex_hull_generation ConvexHull w input_directory output_directory sfx
              = Inl e)
     \<and> (\<forall>w1 e. Path_mkdir output_dir w = Inr w1
            \<and> os_listdir w1 (Path_str (Path input_directory)) = Inl e \<longrightarrow>
            batch_convex_hull_generation ConvexHull w input_directory output_directory sfx
              = Inl e)
     \<and> (\<forall>w1. Path_mkdir output_dir w = Inr w1
            \<and> \<not> os_path_isdir w1 (Path_str (Path input_directory)) \<longrightarrow>
            batch_convex_hull_generation ConvexHull w input_directory output_directory sfx
              \<in> {Inl FileNotFoundError, Inl NotADirectoryError})
     \<and> (os_path_isdir w (Path_str output_dir)
          \<and> \<not> os_path_exists w (Path_str (Path input_directory)) \<longrightarrow>
            batch_convex_hull_generation ConvexHull w input_directory output_directory sfx
              \<in> {Inl FileNotFoundError, Inl NotADirectoryError})
     \<and> (\<forall>ki. os_lookup w (Path_str (Path input_directory)) = Inr ki
            \<and> node_at w ki = Some (Dir False) \<longrightarrow>
            batch_convex_hull_generation ConvexHull w input_directory output_directory sfx
              = (case Path_mkdir output_dir w of
                   Inl e \<Rightarrow> Inl e | Inr w1 \<Rightarrow> Inl PermissionError))
     \<and> (os_path_isfile w (Path_str (Path input_directory)) \<longrightarrow>
            batch_convex_hull_generation ConvexHull w input_directory output_directory sfx
              = (case Path_mkdir output_dir w of
                   Inl e \<Rightarrow> Inl e | Inr w1 \<Rightarrow> Inl NotADirectoryError))"
proof -
  let ?pd = "Path input_directory"
  let ?s = "Path_str ?pd"
  let ?batch = "batch_convex_hull_generation ConvexHull w input_directory output_directory sfx"
  have c1: "?batch = Inl e" if "Path_mkdir output_dir w = Inl e" for e
    using that unfolding od by (simp add: batch_unfold)
  have c2: "?batch = Inl e"
    if "Path_mkdir output_dir w = Inr w1" and "os_listdir w1 ?s = Inl e" for w1 e
    using that unfolding od by (simp add: batch_unfold Path_iterdir_def)
  have c3: "?batch \<in> {Inl FileNotFoundError, Inl NotADirectoryError}"
    if mk: "Path_mkdir output_dir w = Inr w1" and nd: "\<not> os_path_isdir w1 ?s" for w1
  proof -
    from os_listdir_not_dir [OF nd] obtain e where
      "os_listdir w1 ?s = Inl e" and "e = FileNotFoundError \<or> e = NotADirectoryError"
      by blast
    with c2 [OF mk] show ?thesis by auto
  qed
  have c4: "?batch \<in> {Inl FileNotFoundError, Inl NotADirectoryError}"
    if d: "os_path_isdir w (Path_str output_dir)" and ne: "\<not> os_path_exists w ?s"
  proof -
    from d have mk: "Path_mkdir output_dir w = Inr w"
      by (simp add: Path_mkdir_def os_makedirs_existing)
    from ne have "\<not> os_path_isdir w ?s"
      by (auto simp: os_path_exists_def os_path_isdir_def is_dir_node_def
          split: sum.splits option.splits)
    from c3 [OF mk this] show ?thesis .
  qed
  have c5: "?batch = (case Path_mkdir output_dir w of
                        Inl e \<Rightarrow> Inl e | Inr w1 \<Rightarrow> Inl PermissionError)"
    if l: "os_lookup w ?s = Inr ki" and n: "node_at w ki = Some (Dir False)" for ki
  proof (cases "Path_mkdir output_dir w")
    case (Inl e)
    with c1 [OF Inl] show ?thesis by simp
  next
    case (Inr w1)
    then have "os_makedirs (Path_str output_dir) w = Inr w1"
      by (simp add: Path_mkdir_def)
    from os_makedirs_keeps_node [OF this l n] have "os_listdir w1 ?s = Inl PermissionError"
      by (simp add: os_listdir_def)
    from c2 [OF Inr this] Inr show ?thesis by simp
  qed
  have c6: "?batch = (case Path_mkdir output_dir w of
                        Inl e \<Rightarrow> Inl e | Inr w1 \<Rightarrow> Inl NotADirectoryError)"
    if f: "os_path_isfile w ?s"
  proof (cases "Path_mkdir output_dir w")
    case (Inl e)
    with c1 [OF Inl] show ?thesis by simp
  next
    case (Inr w1)
    then have mk: "os_makedirs (Path_str output_dir) w = Inr w1"
      by (simp add: Path_mkdir_def)
    from f obtain ki nd where l: "os_lookup w ?s = Inr ki" and n: "node_at w ki = Some nd"
      and fl: "is_file_node (Some nd)"
      by (auto simp: os_path_isfile_def is_file_node_def split: sum.splits option.splits)
    from os_makedirs_keeps_node [OF mk l n] fl have "os_listdir w1 ?s = Inl NotADirectoryError"
      by (auto simp: os_listdir_def is_file_node_def split: node.splits)
    from c2 [OF Inr this] Inr show ?thesis by simp
  qed
  from c1 c2 c3 c4 c5 c6 show ?thesis by blast
qed

theorem input_directory_error_propagates_witness:
  "os_path_isdir demo_world (Path_str (Path ''in''))
   \<and> \<not> os_path_exists demo_world (Path_str (Path ''missing''))
   \<and> batch_convex_hull_generation hull_demo demo_world ''missing'' (Some ''in'') default_suffix
       \<in> {Inl FileNotFoundError, Inl NotADirectoryError}
   \<and> Path_mkdir (Path ''in'') demo_world = Inr demo_world
   \<and> os_listdir demo_world (Path_str (Path ''missing'')) = Inl FileNotFoundError
   \<and> \<not> os_path_isdir demo_world (Path_str (Path ''missing''))
   \<and> batch_convex_hull_generation hull_demo demo_world ''missing'' (Some ''in'') default_suffix
       = Inl FileNotFoundError
   \<and> Path_mkdir (Path ''docs/notes.txt'') docs_world = Inl FileExistsError
   \<and> batch_convex_hull_generation hull_demo docs_world ''docs'' (Some ''docs/notes.txt'')
        default_suffix = Inl FileExistsError
   \<and> os_lookup docs_world (Path_str (Path ''vault'')) = Inr [''work'', ''vault'']
   \<and> node_at docs_world [''work'', ''vault''] = Some (Dir False)
   \<and> Path_mkdir (Path ''vault'') docs_world = Inr docs_world
   \<and> batch_convex_hull_generation hull_demo docs_world ''vault'' None default_suffix
       = Inl PermissionError
   \<and> os_path_isfile demo_world (Path_str (Path ''in/notes.txt''))
   \<and> batch_convex_hull_generation hull_demo demo_world ''in/notes.txt'' (Some ''out'')
        default_suffix = Inl NotADirectoryError"
proof -
  have od1: "Path ''in'' = (case Some ''in'' of None \<Rightarrow> Path ''missing'' | Some d \<Rightarrow> Path d)"
    by simp
  note t1 = input_directory_error_propagates
    [where ConvexHull = hull_demo and w = demo_world and output_directory = "Some ''in''"
       and sfx = default_suffix, OF od1]
  have a1: "os_path_isdir demo_world (Path_str (Path ''in''))"
    by (simp add: run_defs demo_world_def)
  have a2: "\<not> os_path_exists demo_world (Path_str (Path ''missing''))"
    by (simp add: run_defs demo_world_def)
  note r1 = t1 [THEN conjunct2, THEN conjunct2, THEN conjunct2, THEN conjunct1, THEN mp,
    OF conjI [OF a1 a2]]
  have a3: "Path_mkdir (Path ''in'') demo_world = Inr demo_world"
    by (simp add: run_defs demo_world_def)
  have a4: "os_listdir demo_world (Path_str (Path ''missing'')) = Inl FileNotFoundError"
    by (simp add: run_defs demo_world_def)
  have a5: "\<not> os_path_isdir demo_world (Path_str (Path ''missing''))"
    by (simp add: run_defs demo_world_def)
  note r2 = t1 [THEN conjunct2, THEN conjunct1, rule_format, OF conjI [OF a3 a4]]
  note r3 = t1 [THEN conjunct2, THEN conjunct2, THEN conjunct1, rule_format,
    OF conjI [OF a3 a5]]
  have od2: "Path ''docs/notes.txt''
               = (case Some ''docs/notes.txt'' of None \<Rightarrow> Path ''docs'' | Some d \<Rightarrow> Path d)"
    by simp
  have b1: "Path_mkdir (Path ''docs/notes.txt'') docs_world = Inl FileExistsError"
    by (simp add: run_defs docs_world_def)
  note r4 = input_directory_error_propagates
    [where ConvexHull = hull_demo and output_directory = "Some ''docs/notes.txt''"
       and sfx = default_suffix, OF od2, THEN conjunct1, rule_format, OF b1]
  have od3: "Path ''vault'' = (case None of None \<Rightarrow> Path ''vault'' | Some d \<Rightarrow> Path d)"
    by simp
  have c1: "os_lookup docs_world (Path_str (Path ''vault'')) = Inr [''work'', ''vault'']"
    by (simp add: run_defs docs_world_def)
  have c2: "node_at docs_world [''work'', ''vault''] = Some (Dir False)"
    by (simp add: node_at_def docs_world_def)
  have c3: "Path_mkdir (Path ''vault'') docs_world = Inr docs_world"
    by (simp add: run_defs docs_world_def)
  note r5 = input_directory_error_propagates
    [where ConvexHull = hull_demo and output_directory = None and sfx = default_suffix,
      OF od3, THEN conjunct2, THEN conjunct2, THEN conjunct2, THEN conjunct2, THEN conjunct1,
      rule_format, OF conjI [OF c1 c2], unfolded c3 sum.case]
  have od4: "Path ''out''
               = (case Some ''out'' of None \<Rightarrow> Path ''in/notes.txt'' | Some d \<Rightarrow> Path d)"
    by simp
  have d1: "os_path_isfile demo_world (Path_str (Path ''in/notes.txt''))"
    by (simp add: run_defs demo_world_def)
  note r6 = input_directory_error_propagates
    [where ConvexHull = hull_demo and output_directory = "Some ''out''"
       and sfx = default_suffix, OF od4, THEN conjunct2, THEN conjunct2, THEN conjunct2,
      THEN conjunct2, THEN conjunct2, THEN mp, OF d1, unfolded demo_mkdir_out sum.case]
  show ?thesis
    by (intro conjI) (rule a1 a2 r1 a3 a4 a5 r2 b1 r4 c1 c2 c3 r5 d1 r6)+
qed

subsection \<open>Running the single-file function twice\<close>





end
